theory Spec2Isabelle
  imports Complex_Main
begin

section \<open>Data model\<close>

text \<open>
  The development follows \<^verbatim>\<open>spinup/algos/pytorch/dqn/dqn.py\<close>. Tensors of
  \<^verbatim>\<open>float32\<close> are modelled by lists of exact reals: rounding, infinities and NaN are
  outside the model. An observation is the flattened vector of its entries, an action is
  the index of a discrete action (it is kept in a \<^verbatim>\<open>float32\<close> array by the source and
  read back with \<^verbatim>\<open>.long()\<close>), a stored terminal flag is the number 0 or 1.
\<close>

type_synonym obs = "real list"

text \<open>The arguments of one \<^verbatim>\<open>store\<close> call: \<^verbatim>\<open>(obs, act, rew, next_obs, done)\<close>.\<close>

type_synonym transition = "obs \<times> nat \<times> real \<times> obs \<times> bool"

datatype py_error =
    IndexError
  | ZeroDivisionError
  | ValueError
  | UnboundLocalError
  | RuntimeError

text \<open>
  \<^verbatim>\<open>class ReplayBuffer\<close>: five parallel arrays, the write cursor \<^verbatim>\<open>ptr\<close>, the
  fill counter \<^verbatim>\<open>size\<close> (here \<open>size_rb\<close>, since \<open>size\<close> is a constant of HOL) and the
  capacity \<^verbatim>\<open>max_size\<close>.
\<close>

record replay_buffer =
  obs_buf :: "obs list"
  obs2_buf :: "obs list"
  act_buf :: "nat list"
  rew_buf :: "real list"
  done_buf :: "real list"
  ptr :: nat
  size_rb :: nat
  max_size :: nat

text \<open>The dictionary returned by \<^verbatim>\<open>sample_batch\<close>, one field per key.\<close>

record batch =
  data_obs :: "obs list"
  data_obs2 :: "obs list"
  data_act :: "nat list"
  data_rew :: "real list"
  data_done :: "real list"

section \<open>Replay buffer\<close>

text \<open>\<^verbatim>\<open>ReplayBuffer.__init__(obs_dim, size)\<close>: every array is \<^verbatim>\<open>np.zeros\<close>.\<close>

definition ReplayBuffer_init :: "nat \<Rightarrow> nat \<Rightarrow> replay_buffer" where
  "ReplayBuffer_init obs_dim sz =
     \<lparr> obs_buf = replicate sz (replicate obs_dim 0),
       obs2_buf = replicate sz (replicate obs_dim 0),
       act_buf = replicate sz 0,
       rew_buf = replicate sz 0,
       done_buf = replicate sz 0,
       ptr = 0, size_rb = 0, max_size = sz \<rparr>"

text \<open>
  \<^verbatim>\<open>ReplayBuffer.store\<close>. Writing at an index that is not below the length of the array
  raises \<^verbatim>\<open>IndexError\<close>, and \<^verbatim>\<open>% self.max_size\<close> raises \<^verbatim>\<open>ZeroDivisionError\<close> when
  the capacity is 0. The observations are taken to have the shape of the buffer's rows.
\<close>

definition store ::
  "replay_buffer \<Rightarrow> obs \<Rightarrow> nat \<Rightarrow> real \<Rightarrow> obs \<Rightarrow> bool \<Rightarrow> py_error + replay_buffer" where
  "store b ob a r next_ob d =
     (if \<not> (ptr b < length (obs_buf b)) then Inl IndexError
      else if \<not> (ptr b < length (obs2_buf b)) then Inl IndexError
      else if \<not> (ptr b < length (act_buf b)) then Inl IndexError
      else if \<not> (ptr b < length (rew_buf b)) then Inl IndexError
      else if \<not> (ptr b < length (done_buf b)) then Inl IndexError
      else if max_size b = 0 then Inl ZeroDivisionError
      else Inr (b\<lparr> obs_buf := (obs_buf b)[ptr b := ob],
                  obs2_buf := (obs2_buf b)[ptr b := next_ob],
                  act_buf := (act_buf b)[ptr b := a],
                  rew_buf := (rew_buf b)[ptr b := r],
                  done_buf := (done_buf b)[ptr b := (if d then 1 else 0)],
                  ptr := (ptr b + 1) mod max_size b,
                  size_rb := min (size_rb b + 1) (max_size b) \<rparr>))"

text \<open>\<^verbatim>\<open>ReplayBuffer.__len__\<close>: the source returns \<^verbatim>\<open>self.ptr\<close>.\<close>

definition ReplayBuffer_len :: "replay_buffer \<Rightarrow> nat" where
  "ReplayBuffer_len b = ptr b"

text \<open>A sequence of \<^verbatim>\<open>store\<close> calls, stopping at the first exception.\<close>

fun stores :: "replay_buffer \<Rightarrow> transition list \<Rightarrow> py_error + replay_buffer" where
  "stores b [] = Inr b"
| "stores b ((ob, a, r, next_ob, d) # ts) =
     (case store b ob a r next_ob d of
        Inl e \<Rightarrow> Inl e
      | Inr b' \<Rightarrow> stores b' ts)"

text \<open>The transition held in slot \<open>i\<close> of the five arrays.\<close>

definition slot :: "replay_buffer \<Rightarrow> nat \<Rightarrow> obs \<times> nat \<times> real \<times> obs \<times> real" where
  "slot b i = (obs_buf b ! i, act_buf b ! i, rew_buf b ! i, obs2_buf b ! i, done_buf b ! i)"

text \<open>What \<^verbatim>\<open>store\<close> writes for a transition: the flag becomes 0 or 1.\<close>

definition stored :: "transition \<Rightarrow> obs \<times> nat \<times> real \<times> obs \<times> real" where
  "stored t = (case t of (ob, a, r, next_ob, d) \<Rightarrow> (ob, a, r, next_ob, if d then 1 else 0))"

text \<open>
  \<^verbatim>\<open>np.random.randint(low, high, size=k)\<close>: it raises \<^verbatim>\<open>ValueError\<close> when the range
  is empty, and otherwise returns one of the arrays listed here, each of them with the same
  probability. The generator itself is numpy's; the model lists its possible results.
  (For \<open>k = 0\<close> and an empty range the answer depends on the version of numpy; the
  model raises.)
\<close>

definition randint :: "nat \<Rightarrow> nat \<Rightarrow> nat \<Rightarrow> py_error + nat list list" where
  "randint low high k =
     (if high \<le> low then Inl ValueError else Inr (List.n_lists k [low..<high]))"

text \<open>Indexing an array with an array of indices: \<^verbatim>\<open>buf[idxs]\<close>.\<close>

definition take_rows :: "'a list \<Rightarrow> nat list \<Rightarrow> py_error + 'a list" where
  "take_rows buf idxs =
     (if list_all (\<lambda>i. i < length buf) idxs then Inr (map (\<lambda>i. buf ! i) idxs)
      else Inl IndexError)"

text \<open>
  \<^verbatim>\<open>ReplayBuffer.sample_batch(batch_size)\<close>, where \<open>idxs\<close> is the array that the call of
  \<^verbatim>\<open>randint\<close> returns. The buffer is returned next to the batch, so that what the call
  does to it can be stated.
\<close>

definition sample_batch ::
  "replay_buffer \<Rightarrow> nat \<Rightarrow> nat list \<Rightarrow> py_error + batch \<times> replay_buffer" where
  "sample_batch b k idxs =
     (case randint 0 (size_rb b) k of
        Inl e \<Rightarrow> Inl e
      | Inr draws \<Rightarrow>
     (case take_rows (obs_buf b) idxs of
        Inl e \<Rightarrow> Inl e
      | Inr os \<Rightarrow>
     (case take_rows (obs2_buf b) idxs of
        Inl e \<Rightarrow> Inl e
      | Inr os2 \<Rightarrow>
     (case take_rows (act_buf b) idxs of
        Inl e \<Rightarrow> Inl e
      | Inr as \<Rightarrow>
     (case take_rows (rew_buf b) idxs of
        Inl e \<Rightarrow> Inl e
      | Inr rs \<Rightarrow>
     (case take_rows (done_buf b) idxs of
        Inl e \<Rightarrow> Inl e
      | Inr ds \<Rightarrow>
          Inr (\<lparr> data_obs = os, data_obs2 = os2, data_act = as,
                 data_rew = rs, data_done = ds \<rparr>, b)))))))"

section \<open>Exploration schedule\<close>

text \<open>
  The closure \<^verbatim>\<open>exploration_schedule\<close> of \<^verbatim>\<open>dqn\<close>, with the two hyperparameters it
  reads as arguments.
\<close>

definition exploration_schedule :: "real \<Rightarrow> real \<Rightarrow> real \<Rightarrow> real" where
  "exploration_schedule expl_end expl_decay rate =
     (if rate > expl_end then rate * expl_decay else expl_end)"

text \<open>
  The value of \<^verbatim>\<open>exploration_rate\<close> after \<open>n\<close> iterations of the training loop: it is
  set to \<^verbatim>\<open>1.0\<close> before the loop and passed through the schedule once per iteration.
\<close>

fun rate_seq :: "real \<Rightarrow> real \<Rightarrow> nat \<Rightarrow> real" where
  "rate_seq expl_end expl_decay 0 = 1"
| "rate_seq expl_end expl_decay (Suc n) =
     exploration_schedule expl_end expl_decay (rate_seq expl_end expl_decay n)"

section \<open>Loss\<close>

text \<open>The first error of a list of results, or all the values.\<close>

fun sequence_err :: "(py_error + 'a) list \<Rightarrow> py_error + 'a list" where
  "sequence_err [] = Inr []"
| "sequence_err (x # xs) =
     (case x of
        Inl e \<Rightarrow> Inl e
      | Inr v \<Rightarrow> (case sequence_err xs of Inl e \<Rightarrow> Inl e | Inr vs \<Rightarrow> Inr (v # vs)))"

text \<open>\<^verbatim>\<open>next_q.max(dim=1)\<close> on one row: a row without entries cannot be reduced.\<close>

fun max_dim1 :: "real list \<Rightarrow> py_error + real" where
  "max_dim1 [] = Inl IndexError"
| "max_dim1 (x # xs) = Inr (fold max xs x)"

text \<open>\<^verbatim>\<open>torch.gather(cur_q, dim=1, index=a.long())\<close> on one row.\<close>

definition gather_dim1 :: "real list \<Rightarrow> nat \<Rightarrow> py_error + real" where
  "gather_dim1 row a = (if a < length row then Inr (row ! a) else Inl RuntimeError)"

text \<open>
  The block under \<^verbatim>\<open>torch.no_grad()\<close> in \<^verbatim>\<open>compute_loss_q\<close>: the target network
  \<open>q_targ\<close> gives one row of action values per next observation.
\<close>

definition bellman_backup :: "real \<Rightarrow> (obs \<Rightarrow> real list) \<Rightarrow> batch \<Rightarrow> py_error + real list" where
  "bellman_backup gam q_targ data =
     (case sequence_err (map (\<lambda>o2. max_dim1 (q_targ o2)) (data_obs2 data)) of
        Inl e \<Rightarrow> Inl e
      | Inr next_q \<Rightarrow>
          Inr (map (\<lambda>(r, d, nq). r + gam * (1 - d) * nq)
                 (zip (data_rew data) (zip (data_done data) next_q))))"

text \<open>The mean of the squared differences; the mean of no entries is NaN, here \<open>None\<close>.\<close>

definition mse :: "real list \<Rightarrow> real list \<Rightarrow> real option" where
  "mse cur_q backup =
     (if cur_q = [] then None
      else Some (sum_list (map (\<lambda>(c, t). (c - t)\<^sup>2) (zip cur_q backup)) / real (length cur_q)))"

text \<open>
  \<^verbatim>\<open>compute_loss_q(data)\<close>: it returns the loss and the Q-values that go to the logger.
  \<^verbatim>\<open>MLPQFunction.forward\<close> squeezes the last dimension of the network's output, so with
  a single action the output has one dimension only and \<^verbatim>\<open>gather\<close> along dimension 1
  raises.
\<close>

definition compute_loss_q ::
  "real \<Rightarrow> nat \<Rightarrow> (obs \<Rightarrow> real list) \<Rightarrow> (obs \<Rightarrow> real list) \<Rightarrow> batch
     \<Rightarrow> py_error + real option \<times> real list" where
  "compute_loss_q gam act_dim q q_targ data =
     (if act_dim = 1 then Inl IndexError
      else
     (case sequence_err (map (\<lambda>(ob, a). gather_dim1 (q ob) a)
                          (zip (data_obs data) (data_act data))) of
        Inl e \<Rightarrow> Inl e
      | Inr cur_q \<Rightarrow>
     (case bellman_backup gam q_targ data of
        Inl e \<Rightarrow> Inl e
      | Inr backup \<Rightarrow> Inr (mse cur_q backup, cur_q))))"

section \<open>Networks, optimizer and update\<close>

text \<open>
  The parameters of the networks are tensors that are mutated in place and shared by
  reference: the optimizer and the Polyak step hold the same objects as the modules. The
  model keeps them in a store, a list of tensors indexed by address, with the
  \<^verbatim>\<open>requires_grad\<close> flag of each beside it; a module and the optimizer are the lists of
  the addresses of their parameters. The logger's \<^verbatim>\<open>LossQ\<close> and \<^verbatim>\<open>QVals\<close> records
  are part of the state.
\<close>

type_synonym tensor = "real list"

record 'os learner =
  heap :: "tensor list"
  requires_grad :: "bool list"
  q_net :: "nat list"
  q_net_targ :: "nat list"
  q_optimizer :: "nat list"
  opt_state :: 'os
  LossQ :: "real option list"
  QVals :: "real list list"

text \<open>
  What the training code takes from torch: \<open>mlp\<close> is the forward pass of the
  architecture on a list of parameter values, and \<open>adam\<close> stands for
  \<^verbatim>\<open>zero_grad\<close>, \<^verbatim>\<open>backward\<close>, \<^verbatim>\<open>clip_grad_norm_\<close> and \<^verbatim>\<open>q_optimizer.step\<close>: from the
  optimizer's state, the store and the batch it gives the new value of the parameter at
  each address and the optimizer's next state. Both are arbitrary in every theorem.
\<close>

record 'os torch =
  mlp :: "tensor list \<Rightarrow> obs \<Rightarrow> real list"
  adam :: "'os \<Rightarrow> tensor list \<Rightarrow> batch \<Rightarrow> (nat \<Rightarrow> tensor) \<times> 'os"

text \<open>
  The keyword arguments of \<^verbatim>\<open>dqn\<close> that are numbers. The seed and the replay size are
  integers, since the start-up passes them to calls that check their range; the other
  counts are natural numbers.
\<close>

record config =
  seed :: int
  steps_per_epoch :: nat
  epochs :: nat
  replay_size :: int
  gamma :: real
  polyak :: real
  q_lr :: real
  batch_size :: nat
  update_interval :: nat
  num_test_episodes :: nat
  max_ep_len :: nat
  grad_steps :: nat
  max_grad_norm :: real
  exploration_start :: real
  exploration_end :: real
  exploration_decay :: real
  save_freq :: nat

text \<open>\<^verbatim>\<open>deepcopy\<close> of a module: fresh tensors with the same values and flags.\<close>

definition deepcopy ::
  "tensor list \<Rightarrow> bool list \<Rightarrow> nat list \<Rightarrow> tensor list \<times> bool list \<times> nat list" where
  "deepcopy h rg ps =
     (h @ map (\<lambda>p. h ! p) ps, rg @ map (\<lambda>p. rg ! p) ps, [length h..<length h + length ps])"

text \<open>
  The networks and the optimizer as \<^verbatim>\<open>dqn\<close> creates them: \<open>init\<close> are the initial
  parameters of the freshly constructed \<^verbatim>\<open>q_net\<close>, the target is its deep copy with
  \<^verbatim>\<open>requires_grad = False\<close>, and Adam is given \<^verbatim>\<open>q_net.q.parameters()\<close>.
\<close>

definition dqn_networks :: "tensor list \<Rightarrow> 'os \<Rightarrow> 'os learner" where
  "dqn_networks init os0 =
     (let qn = [0..<length init] in
      case deepcopy init (replicate (length init) True) qn of
        (h, rg, qt) \<Rightarrow>
          \<lparr> heap = h,
            requires_grad = fold (\<lambda>p f. f[p := False]) qt rg,
            q_net = qn, q_net_targ = qt, q_optimizer = qn,
            opt_state = os0, LossQ = [], QVals = [] \<rparr>)"

text \<open>The values of the parameters of a module.\<close>

definition params_of :: "tensor list \<Rightarrow> nat list \<Rightarrow> tensor list" where
  "params_of h ps = map (\<lambda>p. h ! p) ps"

text \<open>
  One pass of the loop body of \<^verbatim>\<open>update\<close>: the loss, then the optimizer's step, which
  writes the parameters it was given and skips one without gradient.
\<close>

definition gradient_step ::
  "config \<Rightarrow> nat \<Rightarrow> 'os torch \<Rightarrow> batch \<Rightarrow> 'os learner
     \<Rightarrow> py_error + 'os learner \<times> real option \<times> real list" where
  "gradient_step cfg act_dim th data s =
     (case compute_loss_q (gamma cfg) act_dim
             (mlp th (params_of (heap s) (q_net s)))
             (mlp th (params_of (heap s) (q_net_targ s))) data of
        Inl e \<Rightarrow> Inl e
      | Inr loss \<Rightarrow>
          (case adam th (opt_state s) (heap s) data of
             (new, os') \<Rightarrow>
               Inr (s\<lparr> heap :=
                         fold (\<lambda>p h. if p < length (requires_grad s) \<and> requires_grad s ! p
                                      then h[p := new p] else h)
                           (q_optimizer s) (heap s),
                       opt_state := os' \<rparr>, loss)))"

text \<open>
  \<^verbatim>\<open>for _ in range(grad_steps)\<close>; \<open>lq\<close> is the binding of \<^verbatim>\<open>loss_q, loss_info\<close>,
  absent before the first pass.
\<close>

fun grad_loop ::
  "config \<Rightarrow> nat \<Rightarrow> 'os torch \<Rightarrow> batch \<Rightarrow> nat \<Rightarrow> 'os learner \<Rightarrow> (real option \<times> real list) option
     \<Rightarrow> py_error + 'os learner \<times> (real option \<times> real list) option" where
  "grad_loop cfg act_dim th data 0 s lq = Inr (s, lq)"
| "grad_loop cfg act_dim th data (Suc n) s lq =
     (case gradient_step cfg act_dim th data s of
        Inl e \<Rightarrow> Inl e
      | Inr (s', loss) \<Rightarrow> grad_loop cfg act_dim th data n s' (Some loss))"

text \<open>
  The Polyak step on one pair of parameters, with the two in-place operations of the
  source: \<^verbatim>\<open>p_targ.data.mul_(polyak)\<close>, then \<^verbatim>\<open>p_targ.data.add_((1 - polyak) * p.data)\<close>.
\<close>

definition polyak_pair :: "real \<Rightarrow> nat \<times> nat \<Rightarrow> tensor list \<Rightarrow> tensor list" where
  "polyak_pair rho pp h =
     (case pp of (p, p_targ) \<Rightarrow>
        (let h1 = h[p_targ := map (\<lambda>x. x * rho) (h ! p_targ)]
         in h1[p_targ := map (\<lambda>(x, y). x + y)
                            (zip (h1 ! p_targ) (map (\<lambda>x. (1 - rho) * x) (h1 ! p)))]))"

definition polyak_sync :: "real \<Rightarrow> 'os learner \<Rightarrow> 'os learner" where
  "polyak_sync rho s =
     s\<lparr> heap := fold (polyak_pair rho) (zip (q_net s) (q_net_targ s)) (heap s) \<rparr>"

text \<open>
  \<^verbatim>\<open>update(data, grad_steps)\<close>. With no pass of the loop \<^verbatim>\<open>loss_q\<close> is unbound when the
  logger is called.
\<close>

definition update ::
  "config \<Rightarrow> nat \<Rightarrow> 'os torch \<Rightarrow> batch \<Rightarrow> nat \<Rightarrow> 'os learner \<Rightarrow> py_error + 'os learner" where
  "update cfg act_dim th data n s =
     (case grad_loop cfg act_dim th data n s None of
        Inl e \<Rightarrow> Inl e
      | Inr (s1, lq) \<Rightarrow>
          (case lq of
             None \<Rightarrow> Inl UnboundLocalError
           | Some (loss_q, loss_info) \<Rightarrow>
               Inr (polyak_sync (polyak cfg)
                      (s1\<lparr> LossQ := LossQ s1 @ [loss_q], QVals := QVals s1 @ [loss_info] \<rparr>))))"

section \<open>Training loop\<close>

text \<open>
  The state of the loop of \<^verbatim>\<open>dqn\<close>: the buffer, the networks, the current observation
  \<^verbatim>\<open>o\<close>, the episode accumulators, the exploration rate and the logger's
  \<^verbatim>\<open>EpRet\<close>/\<^verbatim>\<open>EpLen\<close> records.
\<close>

record 'os trainer =
  buffer :: replay_buffer
  learner :: "'os learner"
  o_cur :: obs
  ep_ret :: real
  ep_len :: nat
  exploration_rate :: real
  EpRet :: "(real \<times> nat) list"

text \<open>
  What one iteration receives from outside: the action that \<^verbatim>\<open>get_action(o)\<close> returns, the
  result of \<^verbatim>\<open>env.step(a)\<close>, the observation that \<^verbatim>\<open>env.reset()\<close> returns if it is
  called, and the index arrays that \<^verbatim>\<open>randint\<close> returns in the update block, by the
  number of the sample.
\<close>

record step_input =
  action :: nat
  env_o2 :: obs
  env_r :: real
  env_d :: bool
  env_reset :: obs
  draws :: "nat \<Rightarrow> nat list"

text \<open>
  The calls of the start-up that check a hyperparameter. \<^verbatim>\<open>torch.manual_seed\<close> takes a
  seed from \<open>-2^63\<close> to \<open>2^64 - 1\<close> and raises \<^verbatim>\<open>RuntimeError\<close> otherwise;
  \<^verbatim>\<open>np.random.seed\<close> takes a seed from 0 to \<open>2^32 - 1\<close> and raises \<^verbatim>\<open>ValueError\<close>
  otherwise.
\<close>

definition manual_seed :: "int \<Rightarrow> py_error + unit" where
  "manual_seed sd = (if sd < - (2 ^ 63) \<or> 2 ^ 64 - 1 < sd then Inl RuntimeError else Inr ())"

definition np_random_seed :: "int \<Rightarrow> py_error + unit" where
  "np_random_seed sd = (if sd < 0 \<or> 2 ^ 32 - 1 < sd then Inl ValueError else Inr ())"

text \<open>
  The constructor call \<^verbatim>\<open>ReplayBuffer(obs_dim, size)\<close> with an integer size:
  \<^verbatim>\<open>np.zeros\<close> raises \<^verbatim>\<open>ValueError\<close> for a negative dimension.
\<close>

definition ReplayBuffer :: "nat \<Rightarrow> int \<Rightarrow> py_error + replay_buffer" where
  "ReplayBuffer obs_dim sz =
     (if sz < 0 then Inl ValueError else Inr (ReplayBuffer_init obs_dim (nat sz)))"

text \<open>
  The constructor call \<^verbatim>\<open>Adam(params, lr=q_lr)\<close>: torch raises \<^verbatim>\<open>ValueError\<close> for a
  negative learning rate, and for an empty list of parameters; otherwise the call returns
  the optimizer, whose initial state is \<open>os0\<close>.
\<close>

definition Adam :: "nat list \<Rightarrow> real \<Rightarrow> 'os \<Rightarrow> py_error + 'os" where
  "Adam ps lr os0 =
     (if lr < 0 then Inl ValueError
      else if ps = [] then Inl ValueError
      else Inr os0)"

text \<open>
  The start of \<^verbatim>\<open>dqn\<close> up to the loop, in the order of the source: the seeds, the
  networks, the buffer, the optimizer, the first observation and
  \<^verbatim>\<open>exploration_rate = 1.0\<close>. The logger, the construction of the environments and the
  construction of the network from its own arguments are taken to succeed: \<open>init\<close> are
  the parameters of the network and \<open>o0\<close> is the observation of the first
  \<^verbatim>\<open>env.reset()\<close>.
\<close>

definition dqn_start ::
  "config \<Rightarrow> nat \<Rightarrow> tensor list \<Rightarrow> 'os \<Rightarrow> obs \<Rightarrow> py_error + 'os trainer" where
  "dqn_start cfg obs_dim init os0 o0 =
     (case manual_seed (seed cfg) of
        Inl e \<Rightarrow> Inl e
      | Inr u \<Rightarrow>
     (case np_random_seed (seed cfg) of
        Inl e \<Rightarrow> Inl e
      | Inr u' \<Rightarrow>
     (case ReplayBuffer obs_dim (replay_size cfg) of
        Inl e \<Rightarrow> Inl e
      | Inr b \<Rightarrow>
     (case Adam (q_optimizer (dqn_networks init os0)) (q_lr cfg) os0 of
        Inl e \<Rightarrow> Inl e
      | Inr os \<Rightarrow>
          Inr \<lparr> buffer = b,
                learner = (dqn_networks init os0)\<lparr> opt_state := os \<rparr>,
                o_cur = o0, ep_ret = 0, ep_len = 0, exploration_rate = 1, EpRet = [] \<rparr>))))"

text \<open>\<^verbatim>\<open>d = False if ep_len == max_ep_len else d\<close>.\<close>

definition ignore_done :: "nat \<Rightarrow> nat \<Rightarrow> bool \<Rightarrow> bool" where
  "ignore_done len max_len d = (if len = max_len then False else d)"

text \<open>
  The condition of the update block,
  \<^verbatim>\<open>len(replay_buffer) >= batch_size and (t + 1) % update_interval == 0\<close>: the modulus
  is evaluated only when the first conjunct holds.
\<close>

definition update_due :: "replay_buffer \<Rightarrow> nat \<Rightarrow> nat \<Rightarrow> nat \<Rightarrow> py_error + bool" where
  "update_due b bs ui t =
     (if ReplayBuffer_len b \<ge> bs
      then (if ui = 0 then Inl ZeroDivisionError else Inr ((t + 1) mod ui = 0))
      else Inr False)"

text \<open>
  The update block: \<open>n\<close> more cycles of \<^verbatim>\<open>sample_batch\<close> and \<^verbatim>\<open>update\<close>, the next of
  them with the draw number \<open>j\<close>.
\<close>

fun update_block ::
  "config \<Rightarrow> nat \<Rightarrow> 'os torch \<Rightarrow> (nat \<Rightarrow> nat list) \<Rightarrow> nat \<Rightarrow> nat
     \<Rightarrow> replay_buffer \<times> 'os learner \<Rightarrow> py_error + replay_buffer \<times> 'os learner" where
  "update_block cfg act_dim th drw 0 j bl = Inr bl"
| "update_block cfg act_dim th drw (Suc n) j bl =
     (case sample_batch (fst bl) (batch_size cfg) (drw j) of
        Inl e \<Rightarrow> Inl e
      | Inr (data, b') \<Rightarrow>
          (case update cfg act_dim th data (grad_steps cfg) (snd bl) of
             Inl e \<Rightarrow> Inl e
           | Inr l' \<Rightarrow> update_block cfg act_dim th drw n (Suc j) (b', l')))"

text \<open>
  Iteration \<open>t\<close> of the loop, up to the update block. The handling of the end of an epoch
  (saving, test episodes on the second environment, the epoch's log lines) touches neither
  the buffer nor the networks; it belongs to the logger and the test environment and is
  left out, so the model says nothing about an iteration that ends an epoch beyond its
  update block.
\<close>

definition dqn_step ::
  "config \<Rightarrow> nat \<Rightarrow> 'os torch \<Rightarrow> nat \<Rightarrow> step_input \<Rightarrow> 'os trainer \<Rightarrow> py_error + 'os trainer" where
  "dqn_step cfg act_dim th t inp s =
     (let ret = ep_ret s + env_r inp;
          len = ep_len s + 1;
          d = ignore_done len (max_ep_len cfg) (env_d inp)
      in case store (buffer s) (o_cur s) (action inp) (env_r inp) (env_o2 inp) d of
           Inl e \<Rightarrow> Inl e
         | Inr b1 \<Rightarrow>
             (let rate = exploration_schedule (exploration_end cfg) (exploration_decay cfg)
                           (exploration_rate s);
                  s1 = (if d \<or> len = max_ep_len cfg
                        then s\<lparr> buffer := b1, o_cur := env_reset inp, ep_ret := 0, ep_len := 0,
                                exploration_rate := rate, EpRet := EpRet s @ [(ret, len)] \<rparr>
                        else s\<lparr> buffer := b1, o_cur := env_o2 inp, ep_ret := ret, ep_len := len,
                                exploration_rate := rate \<rparr>)
              in case update_due b1 (batch_size cfg) (update_interval cfg) t of
                   Inl e \<Rightarrow> Inl e
                 | Inr due \<Rightarrow>
                     if due
                     then (case update_block cfg act_dim th (draws inp) (update_interval cfg) 0
                                  (b1, learner s) of
                             Inl e \<Rightarrow> Inl e
                           | Inr (b2, l2) \<Rightarrow> Inr (s1\<lparr> buffer := b2, learner := l2 \<rparr>))
                     else Inr s1))"

text \<open>The state after the iterations \<open>t = 0, \<dots>, n - 1\<close> of \<^verbatim>\<open>for t in range(total_steps)\<close>.\<close>

fun dqn_loop ::
  "config \<Rightarrow> nat \<Rightarrow> 'os torch \<Rightarrow> (nat \<Rightarrow> step_input) \<Rightarrow> nat \<Rightarrow> 'os trainer
     \<Rightarrow> py_error + 'os trainer" where
  "dqn_loop cfg act_dim th inp 0 s = Inr s"
| "dqn_loop cfg act_dim th inp (Suc n) s =
     (case dqn_loop cfg act_dim th inp n s of
        Inl e \<Rightarrow> Inl e
      | Inr s' \<Rightarrow> dqn_step cfg act_dim th n (inp n) s')"

definition dqn ::
  "config \<Rightarrow> nat \<Rightarrow> nat \<Rightarrow> 'os torch \<Rightarrow> tensor list \<Rightarrow> 'os \<Rightarrow> obs \<Rightarrow> (nat \<Rightarrow> step_input)
     \<Rightarrow> py_error + 'os trainer" where
  "dqn cfg obs_dim act_dim th init os0 o0 inp =
     (case dqn_start cfg obs_dim init os0 o0 of
        Inl e \<Rightarrow> Inl e
      | Inr s0 \<Rightarrow> dqn_loop cfg act_dim th inp (steps_per_epoch cfg * epochs cfg) s0)"

text \<open>The default values of the keyword arguments of \<^verbatim>\<open>dqn\<close>.\<close>

definition default_config :: config where
  "default_config =
     \<lparr> seed = 0, steps_per_epoch = 5000, epochs = 100, replay_size = 100000,
       gamma = 99 / 100,
       polyak = 995 / 1000, q_lr = 1 / 1000, batch_size = 128, update_interval = 50,
       num_test_episodes = 2, max_ep_len = 1000, grad_steps = 1, max_grad_norm = 10,
       exploration_start = 1, exploration_end = 5 / 100, exploration_decay = 99995 / 100000,
       save_freq = 1 \<rparr>"

section \<open>Invariants used in the proofs\<close>

text \<open>A buffer as the constructor and \<^verbatim>\<open>store\<close> leave it.\<close>

definition wf_buffer :: "replay_buffer \<Rightarrow> bool" where
  "wf_buffer b \<longleftrightarrow>
     0 < max_size b \<and> ptr b < max_size b \<and> size_rb b \<le> max_size b \<and>
     length (obs_buf b) = max_size b \<and> length (obs2_buf b) = max_size b \<and>
     length (act_buf b) = max_size b \<and> length (rew_buf b) = max_size b \<and>
     length (done_buf b) = max_size b"

text \<open>
  The buffer \<open>b\<close> holds the transitions \<open>ts\<close> stored so far, the most recent of them
  counted back from the cursor.
\<close>

definition recent :: "nat \<Rightarrow> transition list \<Rightarrow> replay_buffer \<Rightarrow> bool" where
  "recent C ts b \<longleftrightarrow>
     wf_buffer b \<and> max_size b = C \<and> size_rb b = min (length ts) C \<and>
     ptr b = length ts mod C \<and>
     (\<forall>i<min (length ts) C. slot b ((length ts - Suc i) mod C) = stored (rev ts ! i))"

text \<open>
  The networks as \<^verbatim>\<open>dqn\<close> sets them up and \<^verbatim>\<open>update\<close> keeps them: the target has one
  parameter per parameter of the online network, its parameters are distinct tensors, none
  of them is a parameter of the online network, and the optimizer holds parameters of the
  online network only.
\<close>

definition wf_learner :: "'os learner \<Rightarrow> bool" where
  "wf_learner s \<longleftrightarrow>
     length (q_net s) = length (q_net_targ s) \<and>
     distinct (q_net_targ s) \<and>
     set (q_net s) \<inter> set (q_net_targ s) = {} \<and>
     set (q_optimizer s) \<subseteq> set (q_net s) \<and>
     list_all (\<lambda>p. p < length (heap s)) (q_net s) \<and>
     list_all (\<lambda>p. p < length (heap s)) (q_net_targ s)"

text \<open>The Polyak average of a target tensor and an online tensor, entry by entry.\<close>

definition polyak_mix :: "real \<Rightarrow> tensor \<Rightarrow> tensor \<Rightarrow> tensor" where
  "polyak_mix rho p_targ p = map (\<lambda>(x, y). rho * x + (1 - rho) * y) (zip p_targ p)"

section \<open>Properties of the replay buffer\<close>

lemma stores_append:
  "stores b (ts @ us) = (case stores b ts of Inl e \<Rightarrow> Inl e | Inr b' \<Rightarrow> stores b' us)"
  by (induction b ts rule: stores.induct) (auto split: sum.splits)

lemma store_wf:
  assumes "wf_buffer b"
  shows "\<exists>b'. store b ob a r next_ob d = Inr b' \<and> wf_buffer b' \<and> max_size b' = max_size b
     \<and> ptr b' = (ptr b + 1) mod max_size b
     \<and> size_rb b' = min (size_rb b + 1) (max_size b)
     \<and> slot b' (ptr b) = stored (ob, a, r, next_ob, d)
     \<and> (\<forall>i. i \<noteq> ptr b \<longrightarrow> slot b' i = slot b i)"
  using assms by (simp add: store_def wf_buffer_def slot_def stored_def)

lemma mod_shift_neq:
  fixes n k C :: nat
  assumes "0 < k" "k < C" "k \<le> n"
  shows "(n - k) mod C \<noteq> n mod C"
proof
  assume "(n - k) mod C = n mod C"
  then have "C dvd n - (n - k)"
    by (metis diff_le_self mod_eq_dvd_iff_nat)
  with assms have "C dvd k" by simp
  with assms show False by (auto dest: dvd_imp_le)
qed

lemma recent_init: "0 < C \<Longrightarrow> recent C [] (ReplayBuffer_init od C)"
  by (simp add: recent_def wf_buffer_def ReplayBuffer_init_def)

lemma recent_store:
  assumes "recent C ts b"
  shows "\<exists>b'. store b ob a r next_ob d = Inr b' \<and> recent C (ts @ [(ob, a, r, next_ob, d)]) b'"
proof -
  let ?n = "length ts"
  from assms have wf: "wf_buffer b" and C: "max_size b = C" and sz: "size_rb b = min ?n C"
    and p: "ptr b = ?n mod C"
    and sl: "\<And>i. i < min ?n C \<Longrightarrow> slot b ((?n - Suc i) mod C) = stored (rev ts ! i)"
    by (auto simp: recent_def)
  from wf C have Cpos: "0 < C" by (simp add: wf_buffer_def)
  from store_wf [OF wf, of ob a r next_ob d] obtain b' where
    st: "store b ob a r next_ob d = Inr b'" and wf': "wf_buffer b'"
    and C': "max_size b' = max_size b"
    and p': "ptr b' = (ptr b + 1) mod max_size b"
    and sz': "size_rb b' = min (size_rb b + 1) (max_size b)"
    and new: "slot b' (ptr b) = stored (ob, a, r, next_ob, d)"
    and old: "\<And>i. i \<noteq> ptr b \<Longrightarrow> slot b' i = slot b i"
    by blast
  have "ptr b' = Suc ?n mod C"
    using p' p C by (simp add: mod_Suc_eq)
  moreover have "size_rb b' = min (Suc ?n) C"
    using sz' sz C by simp
  moreover have "slot b' ((Suc ?n - Suc i) mod C) = stored (rev (ts @ [(ob, a, r, next_ob, d)]) ! i)"
    if i: "i < min (Suc ?n) C" for i
  proof (cases i)
    case 0
    then show ?thesis using new p by simp
  next
    case (Suc j)
    with i have j: "j < min ?n C" and jC: "Suc j < C" and jn: "Suc j \<le> ?n" by auto
    have "(?n - Suc j) mod C \<noteq> ?n mod C"
      using mod_shift_neq [of "Suc j" C ?n] jC jn by simp
    then have "slot b' ((?n - Suc j) mod C) = slot b ((?n - Suc j) mod C)"
      using old p by simp
    with sl [OF j] Suc show ?thesis by simp
  qed
  ultimately have "recent C (ts @ [(ob, a, r, next_ob, d)]) b'"
    using wf' C' C by (simp add: recent_def)
  with st show ?thesis by blast
qed

lemma recent_stores:
  assumes "0 < C"
  shows "\<exists>b. stores (ReplayBuffer_init od C) ts = Inr b \<and> recent C ts b"
proof (induction ts rule: rev_induct)
  case Nil
  show ?case using recent_init [OF assms] by simp
next
  case (snoc t ts)
  then obtain b where b: "stores (ReplayBuffer_init od C) ts = Inr b" and r: "recent C ts b"
    by blast
  obtain ob a rw nob d where t: "t = (ob, a, rw, nob, d)" by (cases t)
  from recent_store [OF r, of ob a rw nob d] obtain b' where
    "store b ob a rw nob d = Inr b'" "recent C (ts @ [t]) b'"
    using t by blast
  then show ?case using b t by (simp add: stores_append)
qed


lemma recent_full_contents:
  assumes r: "recent C ts b" and full: "C \<le> length ts"
  shows "rotate (ptr b) (map (slot b) [0..<C]) = map stored (drop (length ts - C) ts)"
proof (rule nth_equalityI)
  show "length (rotate (ptr b) (map (slot b) [0..<C])) = length (map stored (drop (length ts - C) ts))"
    using full by simp
next
  fix j assume "j < length (rotate (ptr b) (map (slot b) [0..<C]))"
  then have j: "j < C" by simp
  let ?n = "length ts"
  from r have p: "ptr b = ?n mod C"
    and sl: "\<And>i. i < min ?n C \<Longrightarrow> slot b ((?n - Suc i) mod C) = stored (rev ts ! i)"
    by (auto simp: recent_def)
  let ?i = "C - Suc j"
  have i: "?i < min ?n C" using j full by simp
  have idx: "?n - Suc ?i = ?n - C + j" using j full by simp
  have "rotate (ptr b) (map (slot b) [0..<C]) ! j = slot b ((ptr b + j) mod C)"
    using j by (simp add: nth_rotate)
  also have "(ptr b + j) mod C = (?n + j) mod C"
    using p by (simp add: mod_add_left_eq)
  also have "(?n + j) mod C = (?n - C + j) mod C"
  proof -
    have "?n + j = (?n - C + j) + C" using full by simp
    then show ?thesis by (metis mod_add_self2)
  qed
  also have "slot b ((?n - C + j) mod C) = stored (rev ts ! ?i)"
    using sl [OF i] idx by simp
  also have "rev ts ! ?i = ts ! (?n - Suc ?i)"
    using i by (simp add: rev_nth)
  also have "stored (ts ! (?n - Suc ?i)) = map stored (drop (?n - C) ts) ! j"
    using j full idx by simp
  finally show "rotate (ptr b) (map (slot b) [0..<C]) ! j = map stored (drop (?n - C) ts) ! j" .
qed

lemma recent_partial_contents:
  assumes r: "recent C ts b" and part: "length ts < C"
  shows "map (slot b) [0..<length ts] = map stored ts"
proof (rule nth_equalityI)
  show "length (map (slot b) [0..<length ts]) = length (map stored ts)" by simp
next
  fix j assume "j < length (map (slot b) [0..<length ts])"
  then have j: "j < length ts" by simp
  let ?n = "length ts"
  from r have sl: "\<And>i. i < min ?n C \<Longrightarrow> slot b ((?n - Suc i) mod C) = stored (rev ts ! i)"
    by (auto simp: recent_def)
  define i where "i = ?n - Suc j"
  have i: "i < min ?n C" using j part by (simp add: i_def)
  have idx: "?n - Suc i = j" using j by (simp add: i_def)
  have jm: "j mod C = j" using j part by simp
  have "slot b ((?n - Suc i) mod C) = stored (rev ts ! i)" by (rule sl [OF i])
  then have "slot b j = stored (rev ts ! i)" by (simp only: idx jm)
  also have "rev ts ! i = ts ! (?n - Suc i)"
    using i by (simp add: rev_nth)
  also have "\<dots> = ts ! j" by (simp only: idx)
  finally show "map (slot b) [0..<length ts] ! j = map stored ts ! j"
    using j by simp
qed

text \<open>
  Claim C7. On a buffer of capacity \<open>C > 0\<close> every sequence of \<^verbatim>\<open>store\<close> calls
  succeeds, and after it \<open>size \<le> C\<close> and \<open>size = min (number of stores) C\<close>; while
  \<open>size < C\<close> the size is the number of stores and the slots below it hold the stored
  transitions in order; \<open>ptr\<close> is the number of stores modulo \<open>C\<close>; once \<open>size = C\<close> the
  slots, read from the cursor on, are exactly the \<open>C\<close> most recent transitions, oldest
  first. One more \<^verbatim>\<open>store\<close> writes the slot at the old cursor only, then advances the
  cursor modulo \<open>C\<close> and sets the size to \<open>min (size + 1) C\<close>.
\<close>

theorem store_sequence_invariant:
  assumes "0 < C"
  shows "\<exists>b. stores (ReplayBuffer_init od C) ts = Inr b \<and> max_size b = C \<and>
           size_rb b \<le> C \<and> size_rb b = min (length ts) C \<and>
           (size_rb b < C \<longrightarrow> size_rb b = length ts \<and> map (slot b) [0..<size_rb b] = map stored ts) \<and>
           ptr b = length ts mod C \<and>
           (size_rb b = C \<longrightarrow>
              rotate (ptr b) (map (slot b) [0..<C]) = map stored (drop (length ts - C) ts)) \<and>
           (\<exists>b'. store b ob a r next_ob d = Inr b' \<and>
              slot b' (ptr b) = stored (ob, a, r, next_ob, d) \<and>
              (\<forall>i. i \<noteq> ptr b \<longrightarrow> slot b' i = slot b i) \<and>
              ptr b' = (ptr b + 1) mod C \<and> size_rb b' = min (size_rb b + 1) C)"
proof -
  from recent_stores [OF assms, of od ts] obtain b where
    b: "stores (ReplayBuffer_init od C) ts = Inr b" and r: "recent C ts b" by blast
  from r have wf: "wf_buffer b" and C: "max_size b = C" and sz: "size_rb b = min (length ts) C"
    and p: "ptr b = length ts mod C" by (simp_all add: recent_def)
  have le: "size_rb b \<le> C" by (simp add: sz)
  have part: "size_rb b < C \<longrightarrow> size_rb b = length ts \<and> map (slot b) [0..<size_rb b] = map stored ts"
  proof
    assume "size_rb b < C"
    with sz have lt: "length ts < C" by simp
    then have eq: "size_rb b = length ts" using sz by simp
    have "map (slot b) [0..<length ts] = map stored ts"
      by (rule recent_partial_contents [OF r lt])
    then show "size_rb b = length ts \<and> map (slot b) [0..<size_rb b] = map stored ts"
      by (simp only: eq)
  qed
  have full: "size_rb b = C \<longrightarrow>
      rotate (ptr b) (map (slot b) [0..<C]) = map stored (drop (length ts - C) ts)"
  proof
    assume "size_rb b = C"
    with sz have "C \<le> length ts" by simp
    then show "rotate (ptr b) (map (slot b) [0..<C]) = map stored (drop (length ts - C) ts)"
      by (rule recent_full_contents [OF r])
  qed
  from store_wf [OF wf, of ob a r next_ob d] obtain b' where
    "store b ob a r next_ob d = Inr b'"
    "slot b' (ptr b) = stored (ob, a, r, next_ob, d)"
    "\<forall>i. i \<noteq> ptr b \<longrightarrow> slot b' i = slot b i"
    "ptr b' = (ptr b + 1) mod max_size b" "size_rb b' = min (size_rb b + 1) (max_size b)"
    by blast
  then have step: "\<exists>b'. store b ob a r next_ob d = Inr b' \<and>
              slot b' (ptr b) = stored (ob, a, r, next_ob, d) \<and>
              (\<forall>i. i \<noteq> ptr b \<longrightarrow> slot b' i = slot b i) \<and>
              ptr b' = (ptr b + 1) mod C \<and> size_rb b' = min (size_rb b + 1) C"
    unfolding C by (intro exI [of _ b'] conjI)
  from b C le sz part p full step show ?thesis
    by - (rule exI [of _ b], intro conjI, assumption+)
qed

theorem store_sequence_invariant_witness:
  "(0::nat) < 2 \<and>
   (\<exists>b. stores (ReplayBuffer_init 1 2)
          [([1], 0, 1, [2], False), ([2], 1, 0, [3], False), ([3], 0, 5, [4], True)] = Inr b \<and>
        max_size b = 2 \<and> size_rb b = 2 \<and> ptr b = 1 \<and>
        rotate (ptr b) (map (slot b) [0..<2]) =
          map stored [([2], 1, 0, [3], False), ([3], 0, 5, [4], True)])"
proof -
  have h: "(0::nat) < 2" by simp
  from store_sequence_invariant [OF h, of 1
      "[([1], 0, 1, [2], False), ([2], 1, 0, [3], False), ([3], 0, 5, [4], True)]"
      "[4]" 1 2 "[5]" False]
  obtain b where
    b: "stores (ReplayBuffer_init 1 2)
          [([1], 0, 1, [2], False), ([2], 1, 0, [3], False), ([3], 0, 5, [4], True)] = Inr b"
    and m: "max_size b = 2"
    and sz: "size_rb b = min (length [([1::real], 0::nat, 1::real, [2::real], False),
               ([2], 1, 0, [3], False), ([3], 0, 5, [4], True)]) 2"
    and p: "ptr b = length [([1::real], 0::nat, 1::real, [2::real], False),
               ([2], 1, 0, [3], False), ([3], 0, 5, [4], True)] mod 2"
    and full: "size_rb b = 2 \<longrightarrow> rotate (ptr b) (map (slot b) [0..<2]) =
         map stored (drop (length [([1::real], 0::nat, 1::real, [2::real], False),
               ([2], 1, 0, [3], False), ([3], 0, 5, [4], True)] - 2)
            [([1], 0, 1, [2], False), ([2], 1, 0, [3], False), ([3], 0, 5, [4], True)])"
    by blast
  from sz have sz2: "size_rb b = 2" by simp
  from p have p1: "ptr b = 1" by simp
  from full sz2 have "rotate (ptr b) (map (slot b) [0..<2]) =
          map stored [([2], 1, 0, [3], False), ([3], 0, 5, [4], True)]" by simp
  with h b m sz2 p1 show ?thesis by blast
qed

text \<open>
  Claim C1. The claim says that the size query returns the number of valid transitions,
  \<open>min (number of stores) capacity\<close>. \<^verbatim>\<open>__len__\<close> returns the cursor: after two stores
  into a buffer of capacity 2 the size is 2 and the query answers 0.
\<close>

theorem len_returns_ptr:
  "stores (ReplayBuffer_init 1 2) [([1], 0, 1, [2], False), ([2], 1, 0, [3], True)] =
     Inr \<lparr> obs_buf = [[1], [2]], obs2_buf = [[2], [3]], act_buf = [0, 1], rew_buf = [1, 0],
           done_buf = [0, 1], ptr = 0, size_rb = 2, max_size = 2 \<rparr>
   \<and> ReplayBuffer_len \<lparr> obs_buf = [[1], [2]], obs2_buf = [[2], [3]], act_buf = [0, 1],
           rew_buf = [1, 0], done_buf = [0, 1], ptr = 0, size_rb = 2, max_size = 2 \<rparr> = 0"
  by (simp add: ReplayBuffer_init_def store_def ReplayBuffer_len_def numeral_2_eq_2)

section \<open>Sampling\<close>







section \<open>Properties of the exploration schedule\<close>

lemma dqn_step_rate:
  assumes "dqn_step cfg act_dim th t inp s = Inr s'"
  shows "exploration_rate s' =
           exploration_schedule (exploration_end cfg) (exploration_decay cfg) (exploration_rate s)"
  using assms
  by (auto simp: dqn_step_def Let_def split: sum.splits if_splits prod.splits)

lemma dqn_loop_rate:
  assumes "dqn_loop cfg act_dim th inp n s = Inr s'" and "exploration_rate s = 1"
  shows "exploration_rate s' = rate_seq (exploration_end cfg) (exploration_decay cfg) n"
  using assms
proof (induction n arbitrary: s')
  case 0
  then show ?case by simp
next
  case (Suc n)
  from Suc.prems(1) obtain s1 where
    l: "dqn_loop cfg act_dim th inp n s = Inr s1" and
    st: "dqn_step cfg act_dim th n (inp n) s1 = Inr s'"
    by (auto split: sum.splits)
  from Suc.IH [OF l Suc.prems(2)] dqn_step_rate [OF st] show ?case by simp
qed

lemma rate_seq_lower:
  assumes "0 < d" "d < 1" "0 \<le> f" "f \<le> 1"
  shows "f * d \<le> rate_seq f d n"
proof (induction n)
  case 0
  have "f * d \<le> 1 * 1" using assms by (intro mult_mono) simp_all
  then show ?case by simp
next
  case (Suc n)
  show ?case
  proof (cases "rate_seq f d n > f")
    case True
    then have "f * d \<le> rate_seq f d n * d" using assms by simp
    with True show ?thesis by (simp add: exploration_schedule_def)
  next
    case False
    have "f * d \<le> f * 1" using assms by (intro mult_left_mono) simp_all
    with False show ?thesis by (simp add: exploration_schedule_def)
  qed
qed

lemma rate_seq_stays_at_floor:
  assumes "rate_seq f d n \<le> f"
  shows "rate_seq f d (Suc n + k) = f"
proof (induction k)
  case 0
  from assms show ?case by (simp add: exploration_schedule_def)
next
  case (Suc k)
  then show ?case by (simp add: exploration_schedule_def)
qed

lemma rate_seq_is_power:
  assumes "\<And>k. k < n \<Longrightarrow> f < rate_seq f d k"
  shows "rate_seq f d n = d ^ n"
  using assms
proof (induction n)
  case 0
  show ?case by simp
next
  case (Suc n)
  have "rate_seq f d n = d ^ n" by (rule Suc.IH) (simp add: Suc.prems)
  moreover have "f < rate_seq f d n" by (rule Suc.prems) simp
  ultimately show ?case by (simp add: exploration_schedule_def)
qed

lemma rate_seq_reaches_floor:
  assumes "0 < d" "d < 1" "0 < f"
  shows "\<exists>N. \<forall>n\<ge>N. rate_seq f d n = f"
proof -
  from real_arch_pow_inv [OF assms(3) assms(2)] obtain m where m: "d ^ m < f" by blast
  have "\<exists>k\<le>m. rate_seq f d k \<le> f"
  proof (rule ccontr)
    assume "\<not> (\<exists>k\<le>m. rate_seq f d k \<le> f)"
    then have above: "\<And>k. k \<le> m \<Longrightarrow> f < rate_seq f d k" by (meson not_le)
    then have "rate_seq f d m = d ^ m" by (intro rate_seq_is_power) simp
    with above [of m] m show False by simp
  qed
  then obtain k where k: "rate_seq f d k \<le> f" by blast
  have "\<forall>n\<ge>Suc k. rate_seq f d n = f"
  proof (intro allI impI)
    fix n assume "Suc k \<le> n"
    then obtain j where "n = Suc k + j" using le_Suc_ex by blast
    with rate_seq_stays_at_floor [OF k, of j] show "rate_seq f d n = f" by simp
  qed
  then show ?thesis by blast
qed

text \<open>
  Claim C5. The claim says that the rates never increase and never fall below the floor.
  The schedule compares the rate before it multiplies: with decay 1/2 and floor 3/10 the
  rates are 1, 1/2, 1/4, 3/10, so the third is below the floor and the fourth is above the
  third.
\<close>

theorem exploration_rate_undershoots_floor:
  "rate_seq (3 / 10) (1 / 2) 1 = 1 / 2 \<and>
   rate_seq (3 / 10) (1 / 2) 2 = 1 / 4 \<and>
   rate_seq (3 / 10) (1 / 2) 3 = 3 / 10 \<and>
   rate_seq (3 / 10) (1 / 2) 2 < 3 / 10 \<and>
   rate_seq (3 / 10) (1 / 2) 2 < rate_seq (3 / 10) (1 / 2) 3"
  by (simp add: eval_nat_numeral exploration_schedule_def)

section \<open>Properties of the loss\<close>

lemma sequence_err_max:
  assumes "list_all (\<lambda>o2. q o2 \<noteq> []) xs"
  shows "sequence_err (map (\<lambda>o2. max_dim1 (q o2)) xs) = Inr (map (\<lambda>o2. Max (set (q o2))) xs)"
  using assms
proof (induction xs)
  case Nil
  show ?case by simp
next
  case (Cons x xs)
  from Cons.prems obtain y ys where q: "q x = y # ys" by (cases "q x") auto
  have "Max (set (y # ys)) = fold max ys y" by (rule Max.set_eq_fold)
  then have "max_dim1 (q x) = Inr (Max (set (q x)))"
    by (simp only: q max_dim1.simps)
  with Cons show ?case by simp
qed

text \<open>
  Claim C3. For a batch whose fields have one entry per sample and a target network that
  gives at least one action value per observation, the backup computed in
  \<^verbatim>\<open>compute_loss_q\<close> is, for each sample, the reward plus \<open>gamma\<close> times
  \<open>1 - terminal_flag\<close> times the maximum over the actions of the target network's values
  at the next observation; where the flag is 1 it is the reward, whatever the target
  network returns. This backup is the one the loss is formed with.
\<close>

theorem backup_terminal_is_reward:
  assumes "length (data_rew data) = length (data_obs2 data)"
    and "length (data_done data) = length (data_obs2 data)"
    and "list_all (\<lambda>o2. q_targ o2 \<noteq> []) (data_obs2 data)"
  shows "\<exists>backup. bellman_backup gam q_targ data = Inr backup \<and>
           length backup = length (data_obs2 data) \<and>
           (\<forall>j<length backup.
              backup ! j = data_rew data ! j +
                 gam * (1 - data_done data ! j) * Max (set (q_targ (data_obs2 data ! j))) \<and>
              (data_done data ! j = 1 \<longrightarrow> backup ! j = data_rew data ! j)) \<and>
           (\<forall>cur_q. act_dim \<noteq> 1 \<and>
              sequence_err (map (\<lambda>(ob, a). gather_dim1 (q ob) a)
                             (zip (data_obs data) (data_act data))) = Inr cur_q \<longrightarrow>
              compute_loss_q gam act_dim q q_targ data = Inr (mse cur_q backup, cur_q))"
proof -
  let ?nq = "map (\<lambda>o2. Max (set (q_targ o2))) (data_obs2 data)"
  let ?backup = "map (\<lambda>(r, d, nq). r + gam * (1 - d) * nq)
                   (zip (data_rew data) (zip (data_done data) ?nq))"
  have b: "bellman_backup gam q_targ data = Inr ?backup"
    by (simp add: bellman_backup_def sequence_err_max [OF assms(3)])
  have len: "length ?backup = length (data_obs2 data)"
    using assms(1,2) by simp
  have rows: "\<forall>j<length ?backup.
              ?backup ! j = data_rew data ! j +
                 gam * (1 - data_done data ! j) * Max (set (q_targ (data_obs2 data ! j))) \<and>
              (data_done data ! j = 1 \<longrightarrow> ?backup ! j = data_rew data ! j)"
    using assms(1,2) by simp
  have loss: "\<forall>cur_q. act_dim \<noteq> 1 \<and>
              sequence_err (map (\<lambda>(ob, a). gather_dim1 (q ob) a)
                             (zip (data_obs data) (data_act data))) = Inr cur_q \<longrightarrow>
              compute_loss_q gam act_dim q q_targ data = Inr (mse cur_q ?backup, cur_q)"
    by (simp add: compute_loss_q_def b)
  from b len rows loss show ?thesis
    by - (rule exI [of _ ?backup], intro conjI, assumption+)
qed


theorem backup_terminal_is_reward_witness:
  "length (data_rew \<lparr> data_obs = [[1], [2]], data_obs2 = [[2], [3]], data_act = [0, 1],
                      data_rew = [1, 5], data_done = [0, 1] \<rparr>) = 2 \<and>
   length (data_done \<lparr> data_obs = [[1], [2]], data_obs2 = [[2], [3]], data_act = [0, 1],
                      data_rew = [1, 5], data_done = [0, 1] \<rparr>) = 2 \<and>
   list_all (\<lambda>o2. [7, 9 :: real] \<noteq> []) [[2], [3 :: real]] \<and>
   (\<exists>backup. bellman_backup (99 / 100) (\<lambda>o2. [7, 9])
        \<lparr> data_obs = [[1], [2]], data_obs2 = [[2], [3]], data_act = [0, 1],
          data_rew = [1, 5], data_done = [0, 1] \<rparr> = Inr backup \<and>
      length backup = 2 \<and> backup ! 0 = 1 + 99 / 100 * 9 \<and> backup ! 1 = 5)"
proof -
  let ?D = "\<lparr> data_obs = [[1], [2]], data_obs2 = [[2], [3]], data_act = [0, 1],
              data_rew = [1, 5], data_done = [0, 1] \<rparr>"
  have h1: "length (data_rew ?D) = length (data_obs2 ?D)" by simp
  have h2: "length (data_done ?D) = length (data_obs2 ?D)" by simp
  have h3: "list_all (\<lambda>o2. (\<lambda>o2. [7, 9 :: real]) o2 \<noteq> []) (data_obs2 ?D)" by simp
  from backup_terminal_is_reward [OF h1 h2 h3, of "99 / 100" 2 "\<lambda>ob. [0, 0]"]
  obtain backup where b: "bellman_backup (99 / 100) (\<lambda>o2. [7, 9]) ?D = Inr backup"
    and len: "length backup = length (data_obs2 ?D)"
    and rows: "\<forall>j<length backup.
              backup ! j = data_rew ?D ! j +
                 99 / 100 * (1 - data_done ?D ! j) * Max (set ([7, 9 :: real])) \<and>
              (data_done ?D ! j = 1 \<longrightarrow> backup ! j = data_rew ?D ! j)"
    by blast
  from len have l2: "length backup = 2" by simp
  from rows l2 have "backup ! 0 = data_rew ?D ! 0 + 99 / 100 * (1 - data_done ?D ! 0) * Max (set ([7, 9 :: real]))"
    by simp
  then have r0: "backup ! 0 = 1 + 99 / 100 * 9" by simp
  from rows l2 have "data_done ?D ! 1 = 1 \<longrightarrow> backup ! 1 = data_rew ?D ! 1"
    by simp
  then have r1: "backup ! 1 = 5" by simp
  from b l2 r0 r1 show ?thesis by simp
qed

section \<open>Properties of the update\<close>

lemma mix_two_steps:
  "map (\<lambda>(x, y). x + y) (zip (map (\<lambda>x. x * rho) t) (map (\<lambda>x. (1 - rho) * x) p)) =
     polyak_mix rho t p"
  by (induction t arbitrary: p) (auto simp: polyak_mix_def zip_Cons1 mult.commute split: list.splits)

lemma polyak_pair_length: "length (polyak_pair rho pp h) = length h"
  by (cases pp) (simp add: polyak_pair_def Let_def)

lemma polyak_pair_other:
  assumes "a \<noteq> snd pp"
  shows "polyak_pair rho pp h ! a = h ! a"
  using assms by (cases pp) (simp add: polyak_pair_def Let_def)

lemma polyak_pair_target:
  assumes "fst pp \<noteq> snd pp" and "snd pp < length h"
  shows "polyak_pair rho pp h ! snd pp = polyak_mix rho (h ! snd pp) (h ! fst pp)"
  using assms by (cases pp) (simp add: polyak_pair_def Let_def mix_two_steps)

lemma fold_polyak_length: "length (fold (polyak_pair rho) pps h) = length h"
  by (induction pps arbitrary: h) (simp_all add: polyak_pair_length)

lemma fold_polyak_other:
  assumes "a \<notin> snd ` set pps"
  shows "fold (polyak_pair rho) pps h ! a = h ! a"
  using assms
proof (induction pps arbitrary: h)
  case Nil
  show ?case by simp
next
  case (Cons pp pps)
  then have "a \<noteq> snd pp" and "a \<notin> snd ` set pps" by auto
  with Cons.IH [of "polyak_pair rho pp h"] show ?case
    by (simp add: polyak_pair_other)
qed

lemma fold_polyak_target:
  assumes "distinct (map snd pps)" and "fst ` set pps \<inter> snd ` set pps = {}"
    and "list_all (\<lambda>pp. snd pp < length h) pps" and "i < length pps"
  shows "fold (polyak_pair rho) pps h ! snd (pps ! i) =
           polyak_mix rho (h ! snd (pps ! i)) (h ! fst (pps ! i))"
  using assms
proof (induction pps arbitrary: h i)
  case Nil
  then show ?case by simp
next
  case (Cons pp pps)
  let ?h1 = "polyak_pair rho pp h"
  from Cons.prems have d: "distinct (map snd pps)" and notin: "snd pp \<notin> snd ` set pps"
    and disj: "fst ` set pps \<inter> snd ` set pps = {}"
    and ne: "fst pp \<noteq> snd pp" and lt: "snd pp < length h"
    and all: "list_all (\<lambda>pp. snd pp < length ?h1) pps"
    by (auto simp: polyak_pair_length)
  show ?case
  proof (cases i)
    case 0
    have "fold (polyak_pair rho) pps ?h1 ! snd pp = ?h1 ! snd pp"
      by (rule fold_polyak_other [OF notin])
    with 0 polyak_pair_target [OF ne lt] show ?thesis by simp
  next
    case (Suc j)
    with Cons.prems have j: "j < length pps" by simp
    then have mem: "pps ! j \<in> set pps" by simp
    from mem notin have n1: "snd (pps ! j) \<noteq> snd pp" by (metis imageI)
    from mem have "fst (pps ! j) \<in> fst ` set (pp # pps)" by simp
    moreover have "snd pp \<in> snd ` set (pp # pps)" by simp
    ultimately have n2: "fst (pps ! j) \<noteq> snd pp"
      using Cons.prems(2) by (metis disjoint_iff)
    have "fold (polyak_pair rho) pps ?h1 ! snd (pps ! j) =
            polyak_mix rho (?h1 ! snd (pps ! j)) (?h1 ! fst (pps ! j))"
      by (rule Cons.IH [OF d disj all j])
    with n1 n2 Suc show ?thesis by (simp add: polyak_pair_other)
  qed
qed

lemma fold_write_length:
  "length (fold (\<lambda>p h. if c p then h[p := new p] else h) ps h) = length h"
  by (induction ps arbitrary: h) simp_all

lemma fold_write_other:
  assumes "a \<notin> set ps"
  shows "fold (\<lambda>p h. if c p then h[p := new p] else h) ps h ! a = h ! a"
  using assms by (induction ps arbitrary: h) auto

lemma gradient_step_frame:
  assumes "gradient_step cfg act_dim th data s = Inr (s', loss)"
  shows "q_net s' = q_net s \<and> q_net_targ s' = q_net_targ s \<and> q_optimizer s' = q_optimizer s \<and>
         requires_grad s' = requires_grad s \<and> LossQ s' = LossQ s \<and> QVals s' = QVals s \<and>
         length (heap s') = length (heap s) \<and>
         (\<forall>a. a \<notin> set (q_optimizer s) \<longrightarrow> heap s' ! a = heap s ! a)"
  using assms
  by (auto simp: gradient_step_def fold_write_length fold_write_other
           split: sum.splits prod.splits)

lemma wf_learner_frame:
  assumes "wf_learner s" and "q_net s' = q_net s" and "q_net_targ s' = q_net_targ s"
    and "q_optimizer s' = q_optimizer s" and "length (heap s') = length (heap s)"
  shows "wf_learner s'"
  using assms by (simp add: wf_learner_def)

lemma grad_loop_frame:
  assumes "grad_loop cfg act_dim th data n s lq = Inr (s', lq')"
  shows "q_net s' = q_net s \<and> q_net_targ s' = q_net_targ s \<and> q_optimizer s' = q_optimizer s \<and>
         requires_grad s' = requires_grad s \<and> LossQ s' = LossQ s \<and> QVals s' = QVals s \<and>
         length (heap s') = length (heap s) \<and>
         (\<forall>a. a \<notin> set (q_optimizer s) \<longrightarrow> heap s' ! a = heap s ! a)"
  using assms
proof (induction n arbitrary: s lq)
  case 0
  then show ?case by simp
next
  case (Suc n)
  from Suc.prems obtain s1 loss where
    g: "gradient_step cfg act_dim th data s = Inr (s1, loss)" and
    rest: "grad_loop cfg act_dim th data n s1 (Some loss) = Inr (s', lq')"
    by (auto split: sum.splits)
  from gradient_step_frame [OF g] Suc.IH [OF rest] show ?case by simp
qed

lemma grad_loop_bound:
  assumes "grad_loop cfg act_dim th data n s lq = Inr (s', lq')" and "0 < n \<or> lq \<noteq> None"
  shows "lq' \<noteq> None"
  using assms
proof (induction n arbitrary: s lq)
  case 0
  then show ?case by simp
next
  case (Suc n)
  from Suc.prems obtain s1 loss where
    rest: "grad_loop cfg act_dim th data n s1 (Some loss) = Inr (s', lq')"
    by (auto split: sum.splits)
  from Suc.IH [OF rest] show ?case by simp
qed


lemma dqn_networks_fields:
  "heap (dqn_networks init os0) = init @ init \<and>
   q_net (dqn_networks init os0) = [0..<length init] \<and>
   q_net_targ (dqn_networks init os0) = [length init..<length init + length init] \<and>
   q_optimizer (dqn_networks init os0) = [0..<length init]"
  by (simp add: dqn_networks_def deepcopy_def Let_def map_nth)

lemma dqn_networks_wf: "wf_learner (dqn_networks init os0)"
  by (auto simp: wf_learner_def dqn_networks_fields list_all_iff)

lemma polyak_sync_targets:
  assumes wf: "wf_learner s" and i: "i < length (q_net_targ s)"
  shows "heap (polyak_sync rho s) ! (q_net_targ s ! i) =
           polyak_mix rho (heap s ! (q_net_targ s ! i)) (heap s ! (q_net s ! i))"
proof -
  let ?pps = "zip (q_net s) (q_net_targ s)"
  from wf have len: "length (q_net s) = length (q_net_targ s)"
    and d: "distinct (q_net_targ s)"
    and disj: "set (q_net s) \<inter> set (q_net_targ s) = {}"
    and all: "list_all (\<lambda>p. p < length (heap s)) (q_net_targ s)"
    by (simp_all add: wf_learner_def)
  from len have sn: "map snd ?pps = q_net_targ s" and fs: "map fst ?pps = q_net s"
    by simp_all
  have d': "distinct (map snd ?pps)" using d sn by simp
  have "fst ` set ?pps = set (map fst ?pps)" and "snd ` set ?pps = set (map snd ?pps)"
    by simp_all
  with disj fs sn have disj': "fst ` set ?pps \<inter> snd ` set ?pps = {}" by simp
  have all': "list_all (\<lambda>pp. snd pp < length (heap s)) ?pps"
    using all by (auto simp: list_all_iff dest: set_zip_rightD)
  from i len have i': "i < length ?pps" by simp
  from fold_polyak_target [OF d' disj' all' i', of rho] i len
  show ?thesis by (simp add: polyak_sync_def)
qed

lemma wf_learner_excludes:
  assumes "wf_learner l"
  shows "set (q_optimizer l) \<inter> set (q_net_targ l) = {}"
  using assms by (auto simp: wf_learner_def)

text \<open>
  Claim C4. The parameters of the target network are not among the parameters given to
  the optimizer, at set-up and ever after. In a call of \<^verbatim>\<open>update\<close> with at least one
  gradient step, the gradient steps leave every target parameter as it was; the call then
  logs one loss and overwrites each target parameter, the same tensor as before, by
  \<open>polyak * p_targ + (1 - polyak) * p_online\<close>, entry by entry, where \<open>p_online\<close> is the
  online parameter after the last gradient step: one Polyak step per call, not one per
  gradient step.
\<close>

theorem target_changes_by_polyak_only:
  assumes wf: "wf_learner s" and n: "0 < n"
    and gl: "grad_loop cfg act_dim th data n s None = Inr (s1, lq)"
  shows "set (q_optimizer s) \<inter> set (q_net_targ s) = {} \<and>
         (\<forall>i<length (q_net_targ s). heap s1 ! (q_net_targ s ! i) = heap s ! (q_net_targ s ! i)) \<and>
         (\<exists>s'. update cfg act_dim th data n s = Inr s' \<and> wf_learner s' \<and>
               q_net_targ s' = q_net_targ s \<and> q_net s' = q_net s \<and>
               length (LossQ s') = length (LossQ s) + 1 \<and>
               (\<forall>i<length (q_net_targ s). heap s' ! (q_net_targ s ! i) =
                    polyak_mix (polyak cfg) (heap s ! (q_net_targ s ! i))
                      (heap s1 ! (q_net s ! i)))) \<and>
         wf_learner (dqn_networks init os0) \<and>
         set (q_optimizer (dqn_networks init os0)) \<inter> set (q_net_targ (dqn_networks init os0)) = {}"
proof -
  note excl = wf_learner_excludes
  from grad_loop_frame [OF gl] have
    f: "q_net s1 = q_net s" "q_net_targ s1 = q_net_targ s" "q_optimizer s1 = q_optimizer s"
       "LossQ s1 = LossQ s" "length (heap s1) = length (heap s)"
    and keep: "\<And>a. a \<notin> set (q_optimizer s) \<Longrightarrow> heap s1 ! a = heap s ! a"
    by simp_all
  have wf1: "wf_learner s1"
    by (rule wf_learner_frame [OF wf f(1) f(2) f(3) f(5)])
  have untouched: "\<forall>i<length (q_net_targ s). heap s1 ! (q_net_targ s ! i) = heap s ! (q_net_targ s ! i)"
  proof (intro allI impI)
    fix i assume "i < length (q_net_targ s)"
    then have "q_net_targ s ! i \<in> set (q_net_targ s)" by simp
    with excl [OF wf] have "q_net_targ s ! i \<notin> set (q_optimizer s)" by auto
    then show "heap s1 ! (q_net_targ s ! i) = heap s ! (q_net_targ s ! i)" by (rule keep)
  qed
  from grad_loop_bound [OF gl] n obtain loss_q loss_info where lq: "lq = Some (loss_q, loss_info)"
    by (cases lq) auto
  let ?s2 = "s1\<lparr> LossQ := LossQ s1 @ [loss_q], QVals := QVals s1 @ [loss_info] \<rparr>"
  let ?s' = "polyak_sync (polyak cfg) ?s2"
  have up: "update cfg act_dim th data n s = Inr ?s'"
    by (simp add: update_def gl lq)
  have wf2: "wf_learner ?s2"
    by (rule wf_learner_frame [OF wf1]) simp_all
  have wf': "wf_learner ?s'"
    by (rule wf_learner_frame [OF wf2]) (simp_all add: polyak_sync_def fold_polyak_length)
  have logged: "length (LossQ ?s') = length (LossQ s) + 1"
    by (simp add: polyak_sync_def f(4))
  have mixed: "\<forall>i<length (q_net_targ s). heap ?s' ! (q_net_targ s ! i) =
                    polyak_mix (polyak cfg) (heap s ! (q_net_targ s ! i)) (heap s1 ! (q_net s ! i))"
  proof (intro allI impI)
    fix i assume i: "i < length (q_net_targ s)"
    then have "i < length (q_net_targ ?s2)" by (simp add: f(2))
    from polyak_sync_targets [OF wf2 this, of "polyak cfg"]
    have "heap ?s' ! (q_net_targ s ! i) =
            polyak_mix (polyak cfg) (heap s1 ! (q_net_targ s ! i)) (heap s1 ! (q_net s ! i))"
      by (simp add: f(1) f(2))
    with untouched i show "heap ?s' ! (q_net_targ s ! i) =
            polyak_mix (polyak cfg) (heap s ! (q_net_targ s ! i)) (heap s1 ! (q_net s ! i))"
      by simp
  qed
  have same: "q_net_targ ?s' = q_net_targ s" "q_net ?s' = q_net s"
    by (simp_all add: polyak_sync_def f(1) f(2))
  have ex: "\<exists>s'. update cfg act_dim th data n s = Inr s' \<and> wf_learner s' \<and>
               q_net_targ s' = q_net_targ s \<and> q_net s' = q_net s \<and>
               length (LossQ s') = length (LossQ s) + 1 \<and>
               (\<forall>i<length (q_net_targ s). heap s' ! (q_net_targ s ! i) =
                    polyak_mix (polyak cfg) (heap s ! (q_net_targ s ! i))
                      (heap s1 ! (q_net s ! i)))"
    using up wf' same logged mixed by - (rule exI [of _ ?s'], intro conjI, assumption+)
  have wf0: "wf_learner (dqn_networks init os0)" by (rule dqn_networks_wf)
  from excl [OF wf] untouched ex wf0 excl [OF wf0] show ?thesis
    by (intro conjI)
qed


theorem target_changes_by_polyak_only_witness:
  "wf_learner (dqn_networks [[1, 2], [3]] ()) \<and> (0::nat) < Suc (Suc 0) \<and>
   (\<exists>s1 lq s'.
      grad_loop (default_config\<lparr> polyak := 1 / 2 \<rparr>) 2
        \<lparr> mlp = (\<lambda>ps ob. [0, 1]), adam = (\<lambda>os h data. (\<lambda>p. map (\<lambda>x. x + 2) (h ! p), os)) \<rparr>
        \<lparr> data_obs = [[1]], data_obs2 = [[2]], data_act = [0], data_rew = [1], data_done = [0] \<rparr>
        (Suc (Suc 0)) (dqn_networks [[1, 2], [3]] ()) None = Inr (s1, lq) \<and>
      heap s1 = [[5, 6], [7], [1, 2], [3]] \<and>
      update (default_config\<lparr> polyak := 1 / 2 \<rparr>) 2
        \<lparr> mlp = (\<lambda>ps ob. [0, 1]), adam = (\<lambda>os h data. (\<lambda>p. map (\<lambda>x. x + 2) (h ! p), os)) \<rparr>
        \<lparr> data_obs = [[1]], data_obs2 = [[2]], data_act = [0], data_rew = [1], data_done = [0] \<rparr>
        (Suc (Suc 0)) (dqn_networks [[1, 2], [3]] ()) = Inr s' \<and>
      heap s' ! 2 = [3, 4] \<and> heap s' ! 3 = [5])"
proof -
  let ?cfg = "default_config\<lparr> polyak := 1 / 2 \<rparr>"
  let ?th = "\<lparr> mlp = (\<lambda>ps ob. [0, 1 :: real]),
               adam = (\<lambda>os h data. (\<lambda>p. map (\<lambda>x. x + (2 :: real)) (h ! p), os :: unit)) \<rparr>"
  let ?data = "\<lparr> data_obs = [[1]], data_obs2 = [[2]], data_act = [0], data_rew = [1],
                 data_done = [0] \<rparr>"
  let ?s = "dqn_networks [[1, 2], [3]] ()"
  let ?s1 = "\<lparr> heap = [[5, 6], [7], [1, 2], [3]], requires_grad = [True, True, False, False],
               q_net = [0, 1], q_net_targ = [2, 3], q_optimizer = [0, 1], opt_state = (),
               LossQ = [], QVals = [] \<rparr>"
  have s: "?s = \<lparr> heap = [[1, 2], [3], [1, 2], [3]],
                  requires_grad = [True, True, False, False],
                  q_net = [0, 1], q_net_targ = [2, 3], q_optimizer = [0, 1], opt_state = (),
                  LossQ = [], QVals = [] \<rparr>"
    by (simp add: dqn_networks_def deepcopy_def Let_def upt_rec numeral_2_eq_2 numeral_3_eq_3)
  have h1: "wf_learner ?s" by (rule dqn_networks_wf)
  have h2: "(0::nat) < Suc (Suc 0)" by simp
  have h3: "grad_loop ?cfg 2 ?th ?data (Suc (Suc 0)) ?s None =
              Inr (?s1, Some (Some ((0 - (1 + 99 / 100 * (1 - 0) * 1))\<^sup>2 / 1), [0]))"
    by (simp add: s gradient_step_def compute_loss_q_def bellman_backup_def gather_dim1_def
          mse_def params_of_def default_config_def)
  from target_changes_by_polyak_only [OF h1 h2 h3, of "[]" "()"]
  obtain s' where up: "update ?cfg 2 ?th ?data (Suc (Suc 0)) ?s = Inr s'"
    and mixed: "\<forall>i<length (q_net_targ ?s). heap s' ! (q_net_targ ?s ! i) =
                    polyak_mix (polyak ?cfg) (heap ?s ! (q_net_targ ?s ! i))
                      (heap ?s1 ! (q_net ?s ! i))"
    by blast
  from mixed [rule_format, of 0] have t2: "heap s' ! 2 = [3, 4]"
    by (simp add: s polyak_mix_def)
  from mixed [rule_format, of 1] have t3: "heap s' ! 3 = [5]"
    by (simp add: s polyak_mix_def)
  from h1 h2 h3 up t2 t3 show ?thesis by auto
qed

section \<open>Properties of the training loop\<close>

lemma sample_batch_same_buffer:
  assumes "sample_batch b k idxs = Inr (data, b')"
  shows "b' = b"
  using assms by (auto simp: sample_batch_def split: sum.splits)

lemma update_block_same_buffer:
  assumes "update_block cfg act_dim th drw n j bl = Inr bl'"
  shows "fst bl' = fst bl"
  using assms
proof (induction n arbitrary: j bl)
  case 0
  then show ?case by simp
next
  case (Suc n)
  from Suc.prems obtain data b' l' where
    sb: "sample_batch (fst bl) (batch_size cfg) (drw j) = Inr (data, b')" and
    rest: "update_block cfg act_dim th drw n (Suc j) (b', l') = Inr bl'"
    by (auto split: sum.splits prod.splits)
  from Suc.IH [OF rest] sample_batch_same_buffer [OF sb] show ?case by simp
qed

lemma dqn_step_buffer:
  assumes "dqn_step cfg act_dim th t inp s = Inr s'"
  shows "store (buffer s) (o_cur s) (action inp) (env_r inp) (env_o2 inp)
           (ignore_done (ep_len s + 1) (max_ep_len cfg) (env_d inp)) = Inr (buffer s')"
proof -
  let ?d = "ignore_done (ep_len s + 1) (max_ep_len cfg) (env_d inp)"
  from assms obtain b1 where
    st: "store (buffer s) (o_cur s) (action inp) (env_r inp) (env_o2 inp) ?d = Inr b1"
    by (auto simp: dqn_step_def Let_def split: sum.splits)
  from assms st obtain due where
    due: "update_due b1 (batch_size cfg) (update_interval cfg) t = Inr due"
    by (auto simp: dqn_step_def Let_def split: sum.splits)
  show ?thesis
  proof (cases due)
    case False
    with assms st due have "buffer s' = b1"
      by (auto simp: dqn_step_def Let_def split: if_splits)
    with st show ?thesis by simp
  next
    case True
    with assms st due obtain b2 l2 where
      ub: "update_block cfg act_dim th (draws inp) (update_interval cfg) 0 (b1, learner s)
             = Inr (b2, l2)"
      and s': "buffer s' = b2"
      by (auto simp: dqn_step_def Let_def split: sum.splits if_splits)
    from update_block_same_buffer [OF ub] s' have "buffer s' = b1" by simp
    with st show ?thesis by simp
  qed
qed

text \<open>
  Claim C6, as amended. The flag written by an iteration of the loop is 1 exactly when the
  environment reported \<^verbatim>\<open>done\<close> and the episode length after the step differs from
  \<^verbatim>\<open>max_ep_len\<close>; at a step where the length equals \<^verbatim>\<open>max_ep_len\<close> the flag is 0
  whatever the environment reported. On a well-formed buffer the write succeeds, and the
  buffer of the state after the iteration is the one it leaves.
\<close>

theorem stored_flag_masks_done_at_max_len:
  assumes "wf_buffer (buffer s)"
  shows "\<exists>b1. store (buffer s) (o_cur s) (action inp) (env_r inp) (env_o2 inp)
                 (ignore_done (ep_len s + 1) (max_ep_len cfg) (env_d inp)) = Inr b1 \<and>
              done_buf b1 ! ptr (buffer s) =
                (if env_d inp \<and> ep_len s + 1 \<noteq> max_ep_len cfg then 1 else 0) \<and>
              (ep_len s + 1 = max_ep_len cfg \<longrightarrow> done_buf b1 ! ptr (buffer s) = 0) \<and>
              (\<forall>s'. dqn_step cfg act_dim th t inp s = Inr s' \<longrightarrow> buffer s' = b1)"
proof -
  let ?d = "ignore_done (ep_len s + 1) (max_ep_len cfg) (env_d inp)"
  from store_wf [OF assms, of "o_cur s" "action inp" "env_r inp" "env_o2 inp" ?d]
  obtain b1 where
    st: "store (buffer s) (o_cur s) (action inp) (env_r inp) (env_o2 inp) ?d = Inr b1" and
    sl: "slot b1 (ptr (buffer s)) = stored (o_cur s, action inp, env_r inp, env_o2 inp, ?d)"
    by blast
  from sl have flag: "done_buf b1 ! ptr (buffer s) =
      (if env_d inp \<and> ep_len s + 1 \<noteq> max_ep_len cfg then 1 else 0)"
    by (simp add: slot_def stored_def ignore_done_def)
  then have mx: "ep_len s + 1 = max_ep_len cfg \<longrightarrow> done_buf b1 ! ptr (buffer s) = 0"
    by simp
  have step: "\<forall>s'. dqn_step cfg act_dim th t inp s = Inr s' \<longrightarrow> buffer s' = b1"
    using dqn_step_buffer [of cfg act_dim th t inp s] st by auto
  from st flag mx step show ?thesis
    by - (rule exI [of _ b1], intro conjI, assumption+)
qed


theorem stored_flag_masks_done_at_max_len_witness:
  "wf_buffer (ReplayBuffer_init 1 2) \<and>
   (\<exists>b1. store (ReplayBuffer_init 1 2) [1] 0 1 [2] (ignore_done (0 + 1) 1 True) = Inr b1 \<and>
         done_buf b1 ! 0 = 0)"
proof -
  let ?s = "\<lparr> buffer = ReplayBuffer_init 1 2, learner = dqn_networks [] (), o_cur = [1],
              ep_ret = 0, ep_len = 0, exploration_rate = 1, EpRet = [] \<rparr>"
  let ?inp = "\<lparr> action = 0, env_o2 = [2], env_r = 1, env_d = True, env_reset = [0],
                draws = (\<lambda>j. []) \<rparr>"
  let ?cfg = "default_config\<lparr> max_ep_len := 1 \<rparr>"
  have h: "wf_buffer (buffer ?s)" by (simp add: wf_buffer_def ReplayBuffer_init_def)
  from stored_flag_masks_done_at_max_len [OF h, of ?inp ?cfg]
  obtain b1 where
    "store (buffer ?s) (o_cur ?s) (action ?inp) (env_r ?inp) (env_o2 ?inp)
       (ignore_done (ep_len ?s + 1) (max_ep_len ?cfg) (env_d ?inp)) = Inr b1"
    "ep_len ?s + 1 = max_ep_len ?cfg \<longrightarrow> done_buf b1 ! ptr (buffer ?s) = 0"
    by blast
  then have "store (ReplayBuffer_init 1 2) [1] 0 1 [2] (ignore_done (0 + 1) 1 True) = Inr b1 \<and>
         done_buf b1 ! 0 = 0"
    by (simp add: default_config_def ReplayBuffer_init_def)
  with h show ?thesis by auto
qed

text \<open>
  The claim as it stands says that the stored flag is true exactly when the environment
  terminated. In the first iteration with \<^verbatim>\<open>max_ep_len = 1\<close> the environment reports
  termination, the iteration succeeds, and the flag it stores is 0.
\<close>

theorem termination_at_max_len_stored_as_not_done:
  "env_d \<lparr> action = 0, env_o2 = [2], env_r = 1, env_d = True, env_reset = [0],
           draws = (\<lambda>j. []) \<rparr> \<and>
   \<not> isl (dqn_step (default_config\<lparr> max_ep_len := 1 \<rparr>) 2
            \<lparr> mlp = (\<lambda>ps ob. [0, 1]), adam = (\<lambda>os h data. (\<lambda>p. h ! p, os)) \<rparr> 0
            \<lparr> action = 0, env_o2 = [2], env_r = 1, env_d = True, env_reset = [0],
              draws = (\<lambda>j. []) \<rparr>
            \<lparr> buffer = ReplayBuffer_init 1 2, learner = dqn_networks [] (), o_cur = [1],
              ep_ret = 0, ep_len = 0, exploration_rate = 1, EpRet = [] \<rparr>) \<and>
   done_buf (buffer (projr (dqn_step (default_config\<lparr> max_ep_len := 1 \<rparr>) 2
            \<lparr> mlp = (\<lambda>ps ob. [0, 1]), adam = (\<lambda>os h data. (\<lambda>p. h ! p, os)) \<rparr> 0
            \<lparr> action = 0, env_o2 = [2], env_r = 1, env_d = True, env_reset = [0],
              draws = (\<lambda>j. []) \<rparr>
            \<lparr> buffer = ReplayBuffer_init 1 2, learner = dqn_networks [] (), o_cur = [1],
              ep_ret = 0, ep_len = 0, exploration_rate = 1, EpRet = [] \<rparr>))) = [0, 0] \<and>
   size_rb (buffer (projr (dqn_step (default_config\<lparr> max_ep_len := 1 \<rparr>) 2
            \<lparr> mlp = (\<lambda>ps ob. [0, 1]), adam = (\<lambda>os h data. (\<lambda>p. h ! p, os)) \<rparr> 0
            \<lparr> action = 0, env_o2 = [2], env_r = 1, env_d = True, env_reset = [0],
              draws = (\<lambda>j. []) \<rparr>
            \<lparr> buffer = ReplayBuffer_init 1 2, learner = dqn_networks [] (), o_cur = [1],
              ep_ret = 0, ep_len = 0, exploration_rate = 1, EpRet = [] \<rparr>))) = 1"
  by (simp add: dqn_step_def Let_def store_def ignore_done_def update_due_def
        ReplayBuffer_len_def ReplayBuffer_init_def default_config_def numeral_2_eq_2)

lemma update_without_gradient_step: "update cfg act_dim th data 0 s = Inl UnboundLocalError"
  by (simp add: update_def)


section \<open>The number of cycles of an update block\<close>

lemma update_logs_one_loss:
  assumes "update cfg act_dim th data n s = Inr s'"
  shows "length (LossQ s') = Suc (length (LossQ s))"
proof -
  from assms obtain s1 lq where
    gl: "grad_loop cfg act_dim th data n s None = Inr (s1, lq)"
    by (auto simp: update_def split: sum.splits)
  from assms gl obtain loss_q loss_info where
    s': "s' = polyak_sync (polyak cfg)
                (s1\<lparr> LossQ := LossQ s1 @ [loss_q], QVals := QVals s1 @ [loss_info] \<rparr>)"
    by (auto simp: update_def split: option.splits)
  from grad_loop_frame [OF gl] have "LossQ s1 = LossQ s" by simp
  with s' show ?thesis by (simp add: polyak_sync_def)
qed

lemma update_block_cycles:
  assumes "update_block cfg act_dim th drw n j bl = Inr bl'"
  shows "length (LossQ (snd bl')) = length (LossQ (snd bl)) + n"
  using assms
proof (induction n arbitrary: j bl)
  case 0
  then show ?case by simp
next
  case (Suc n)
  from Suc.prems obtain data b' l' where
    up: "update cfg act_dim th data (grad_steps cfg) (snd bl) = Inr l'" and
    rest: "update_block cfg act_dim th drw n (Suc j) (b', l') = Inr bl'"
    by (auto split: sum.splits prod.splits)
  from Suc.IH [OF rest] update_logs_one_loss [OF up] show ?case by simp
qed

lemma dqn_step_cycles:
  assumes "dqn_step cfg act_dim th t inp s = Inr s'"
  shows "length (LossQ (learner s')) = length (LossQ (learner s)) \<or>
         length (LossQ (learner s')) = length (LossQ (learner s)) + update_interval cfg"
proof -
  let ?d = "ignore_done (ep_len s + 1) (max_ep_len cfg) (env_d inp)"
  from assms obtain b1 where
    st: "store (buffer s) (o_cur s) (action inp) (env_r inp) (env_o2 inp) ?d = Inr b1"
    by (auto simp: dqn_step_def Let_def split: sum.splits)
  from assms st obtain due where
    due: "update_due b1 (batch_size cfg) (update_interval cfg) t = Inr due"
    by (auto simp: dqn_step_def Let_def split: sum.splits)
  show ?thesis
  proof (cases due)
    case False
    with assms st due have "learner s' = learner s"
      by (auto simp: dqn_step_def Let_def split: if_splits)
    then show ?thesis by simp
  next
    case True
    with assms st due obtain b2 l2 where
      ub: "update_block cfg act_dim th (draws inp) (update_interval cfg) 0 (b1, learner s)
             = Inr (b2, l2)"
      and s': "learner s' = l2"
      by (auto simp: dqn_step_def Let_def split: sum.splits if_splits)
    from update_block_cycles [OF ub] s' show ?thesis by simp
  qed
qed

section \<open>The update block in the loop\<close>

lemma len_is_count_mod_capacity:
  assumes "recent C ts b"
  shows "ReplayBuffer_len b = length ts mod C \<and> size_rb b = min (length ts) C \<and>
         ReplayBuffer_len b \<le> size_rb b"
proof -
  from assms have p: "ptr b = length ts mod C" and s: "size_rb b = min (length ts) C"
    and w: "wf_buffer b" and m: "max_size b = C"
    by (simp_all add: recent_def)
  from w m have "0 < C" by (simp add: wf_buffer_def)
  then have "length ts mod C \<le> min (length ts) C"
    by (simp add: mod_le_divisor)
  with p s show ?thesis by (simp add: ReplayBuffer_len_def)
qed

lemma update_due_reachable:
  assumes "recent C ts b"
  shows "update_due b bs ui t =
           (if bs \<le> length ts mod C
            then (if ui = 0 then Inl ZeroDivisionError else Inr ((t + 1) mod ui = 0))
            else Inr False)"
  using len_is_count_mod_capacity [OF assms] by (simp add: update_due_def)

lemma no_update_below_batch_size:
  assumes "recent C ts b" and "update_due b bs ui t = Inr True"
  shows "bs \<le> size_rb b \<and> (t + 1) mod ui = 0"
proof -
  from assms(2) have "bs \<le> ReplayBuffer_len b" and m: "(t + 1) mod ui = 0"
    by (auto simp: update_due_def split: if_splits)
  moreover from len_is_count_mod_capacity [OF assms(1)]
  have "ReplayBuffer_len b \<le> size_rb b" by (elim conjE)
  ultimately show ?thesis by simp
qed

lemma no_update_with_large_batch:
  assumes "recent C ts b" and "C < bs"
  shows "update_due b bs ui t = Inr False"
proof -
  from assms(1) have "0 < C" by (simp add: recent_def wf_buffer_def)
  then have "length ts mod C < C" by simp
  with assms(2) update_due_reachable [OF assms(1), of bs ui t] show ?thesis by simp
qed

lemma dqn_loop_buffer_reachable:
  assumes "recent C [] (buffer s)" and "dqn_loop cfg act_dim th inp n s = Inr s'"
  shows "\<exists>ts. length ts = n \<and> recent C ts (buffer s')"
  using assms(2)
proof (induction n arbitrary: s')
  case 0
  with assms(1) show ?case by simp
next
  case (Suc n)
  from Suc.prems obtain s1 where
    l: "dqn_loop cfg act_dim th inp n s = Inr s1" and
    st: "dqn_step cfg act_dim th n (inp n) s1 = Inr s'"
    by (auto split: sum.splits)
  from Suc.IH [OF l] obtain ts where ts: "length ts = n" and r: "recent C ts (buffer s1)"
    by blast
  let ?d = "ignore_done (ep_len s1 + 1) (max_ep_len cfg) (env_d (inp n))"
  let ?t = "(o_cur s1, action (inp n), env_r (inp n), env_o2 (inp n), ?d)"
  from recent_store [OF r, of "o_cur s1" "action (inp n)" "env_r (inp n)" "env_o2 (inp n)" ?d]
    dqn_step_buffer [OF st]
  have "recent C (ts @ [?t]) (buffer s')" by auto
  with ts show ?case by (intro exI [of _ "ts @ [?t]"]) simp
qed

lemma dqn_loop_gate:
  assumes "recent C [] (buffer s)" and "dqn_loop cfg act_dim th inp n s = Inr s'"
  shows "update_due (buffer s') bs ui t =
           (if bs \<le> n mod C
            then (if ui = 0 then Inl ZeroDivisionError else Inr ((t + 1) mod ui = 0))
            else Inr False)"
proof -
  from dqn_loop_buffer_reachable [OF assms] obtain ts where
    "length ts = n" "recent C ts (buffer s')" by blast
  with update_due_reachable [of C ts "buffer s'" bs ui t] show ?thesis by simp
qed

text \<open>
  Claim C2. The claim says that the update block runs whenever \<open>(t + 1) mod
  update_interval = 0\<close> and the valid size is at least \<^verbatim>\<open>batch_size\<close>. The loop tests
  \<^verbatim>\<open>len(replay_buffer)\<close>, which is the cursor: with capacity 2, batch size 1 and update
  interval 2, after the iteration \<open>t = 1\<close> the buffer holds 2 transitions and \<open>t + 1\<close> is a
  multiple of the interval, the cursor is back at 0, and no update has been made (the
  logger holds no loss).
\<close>

theorem update_skipped_after_wraparound:
  "\<not> isl (dqn_loop
            (default_config\<lparr> replay_size := 2, batch_size := 1, update_interval := 2 \<rparr>) 2
            \<lparr> mlp = (\<lambda>ps ob. [0, 1]), adam = (\<lambda>os h data. (\<lambda>p. h ! p, os)) \<rparr>
            (\<lambda>t. \<lparr> action = 0, env_o2 = [2], env_r = 1, env_d = False, env_reset = [0],
                   draws = (\<lambda>j. [0]) \<rparr>)
            (Suc (Suc 0))
            \<lparr> buffer = ReplayBuffer_init 1 2, learner = dqn_networks [[1]] (), o_cur = [1],
              ep_ret = 0, ep_len = 0, exploration_rate = 1, EpRet = [] \<rparr>) \<and>
   size_rb (buffer (projr (dqn_loop
            (default_config\<lparr> replay_size := 2, batch_size := 1, update_interval := 2 \<rparr>) 2
            \<lparr> mlp = (\<lambda>ps ob. [0, 1]), adam = (\<lambda>os h data. (\<lambda>p. h ! p, os)) \<rparr>
            (\<lambda>t. \<lparr> action = 0, env_o2 = [2], env_r = 1, env_d = False, env_reset = [0],
                   draws = (\<lambda>j. [0]) \<rparr>)
            (Suc (Suc 0))
            \<lparr> buffer = ReplayBuffer_init 1 2, learner = dqn_networks [[1]] (), o_cur = [1],
              ep_ret = 0, ep_len = 0, exploration_rate = 1, EpRet = [] \<rparr>))) = 2 \<and>
   ReplayBuffer_len (buffer (projr (dqn_loop
            (default_config\<lparr> replay_size := 2, batch_size := 1, update_interval := 2 \<rparr>) 2
            \<lparr> mlp = (\<lambda>ps ob. [0, 1]), adam = (\<lambda>os h data. (\<lambda>p. h ! p, os)) \<rparr>
            (\<lambda>t. \<lparr> action = 0, env_o2 = [2], env_r = 1, env_d = False, env_reset = [0],
                   draws = (\<lambda>j. [0]) \<rparr>)
            (Suc (Suc 0))
            \<lparr> buffer = ReplayBuffer_init 1 2, learner = dqn_networks [[1]] (), o_cur = [1],
              ep_ret = 0, ep_len = 0, exploration_rate = 1, EpRet = [] \<rparr>))) = 0 \<and>
   LossQ (learner (projr (dqn_loop
            (default_config\<lparr> replay_size := 2, batch_size := 1, update_interval := 2 \<rparr>) 2
            \<lparr> mlp = (\<lambda>ps ob. [0, 1]), adam = (\<lambda>os h data. (\<lambda>p. h ! p, os)) \<rparr>
            (\<lambda>t. \<lparr> action = 0, env_o2 = [2], env_r = 1, env_d = False, env_reset = [0],
                   draws = (\<lambda>j. [0]) \<rparr>)
            (Suc (Suc 0))
            \<lparr> buffer = ReplayBuffer_init 1 2, learner = dqn_networks [[1]] (), o_cur = [1],
              ep_ret = 0, ep_len = 0, exploration_rate = 1, EpRet = [] \<rparr>))) = [] \<and>
   (1 + 1) mod update_interval
      (default_config\<lparr> replay_size := 2, batch_size := 1, update_interval := 2 \<rparr>) = 0 \<and>
   batch_size (default_config\<lparr> replay_size := 2, batch_size := 1, update_interval := 2 \<rparr>) \<le> 2"
proof -
  let ?cfg = "default_config\<lparr> replay_size := 2, batch_size := 1, update_interval := 2 \<rparr>"
  let ?th = "\<lparr> mlp = (\<lambda>ps ob. [0, 1 :: real]),
               adam = (\<lambda>os h data. (\<lambda>p. h ! p, os :: unit)) :: unit \<Rightarrow> tensor list \<Rightarrow> batch \<Rightarrow> (nat \<Rightarrow> tensor) \<times> unit \<rparr>"
  let ?inp = "\<lambda>t :: nat. \<lparr> action = 0, env_o2 = [2], env_r = 1, env_d = False, env_reset = [0],
                   draws = (\<lambda>j. [0]) \<rparr>"
  let ?s0 = "\<lparr> buffer = ReplayBuffer_init 1 2, learner = dqn_networks [[1]] (), o_cur = [1],
              ep_ret = 0, ep_len = 0, exploration_rate = 1, EpRet = [] \<rparr>"
  have rep: "\<And>x::'a. replicate 2 x = [x, x]" by (simp add: numeral_2_eq_2)
  have run: "dqn_loop ?cfg 2 ?th ?inp (Suc (Suc 0)) ?s0 =
     Inr \<lparr> buffer = \<lparr> obs_buf = [[1], [2]], obs2_buf = [[2], [2]], act_buf = [0, 0],
                       rew_buf = [1, 1], done_buf = [0, 0], ptr = 0, size_rb = 2,
                       max_size = 2 \<rparr>,
           learner = dqn_networks [[1]] (), o_cur = [2], ep_ret = 2, ep_len = 2,
           exploration_rate = 99995 / 100000 * (99995 / 100000), EpRet = [] \<rparr>"
    by (simp add: dqn_step_def Let_def store_def ignore_done_def update_due_def
          ReplayBuffer_len_def ReplayBuffer_init_def default_config_def rep
          exploration_schedule_def)
  show ?thesis
    by (simp only: run) (simp add: ReplayBuffer_len_def default_config_def dqn_networks_def
          deepcopy_def Let_def)
qed

section \<open>Start of training\<close>

lemma dqn_start_accepts:
  assumes "0 \<le> seed cfg" and "seed cfg < 2 ^ 32" and "0 \<le> replay_size cfg"
    and "0 \<le> q_lr cfg" and "init \<noteq> []"
  shows "dqn_start cfg obs_dim init os0 o0 =
           Inr \<lparr> buffer = ReplayBuffer_init obs_dim (nat (replay_size cfg)),
                 learner = dqn_networks init os0,
                 o_cur = o0, ep_ret = 0, ep_len = 0, exploration_rate = 1, EpRet = [] \<rparr>"
proof -
  have q: "q_optimizer (dqn_networks init os0) = [0..<length init]"
    using dqn_networks_fields [of init os0] by simp
  have os: "(dqn_networks init os0)\<lparr> opt_state := os0 \<rparr> = dqn_networks init os0"
    by (simp add: dqn_networks_def deepcopy_def Let_def)
  from assms show ?thesis
    by (simp add: dqn_start_def manual_seed_def np_random_seed_def ReplayBuffer_def Adam_def
          q os)
qed

lemma dqn_start_ignores_gamma_and_batch_size:
  "dqn_start (cfg\<lparr> gamma := g, batch_size := bs \<rparr>) obs_dim init os0 o0 =
     dqn_start cfg obs_dim init os0 o0"
  by (simp add: dqn_start_def cong: sum.case_cong)

text \<open>
  Claim C9. There are invalid configurations that the start of training rejects: with a
  negative learning rate, refused by the constructor of the optimizer, or with a negative
  replay size, refused when the arrays of the buffer are allocated, the start-up raises,
  and \<^verbatim>\<open>dqn\<close> ends with that exception without entering the loop.
\<close>

theorem invalid_config_rejected_at_start:
  assumes "q_lr cfg < 0 \<or> replay_size cfg < 0"
  shows "\<exists>e. dqn_start cfg obs_dim init os0 o0 = Inl e \<and>
             dqn cfg obs_dim act_dim th init os0 o0 inp = Inl e"
proof -
  have "\<exists>e. dqn_start cfg obs_dim init os0 o0 = Inl e"
    using assms
    by (auto simp: dqn_start_def ReplayBuffer_def Adam_def split: sum.splits)
  then obtain e where e: "dqn_start cfg obs_dim init os0 o0 = Inl e" by blast
  then have "dqn cfg obs_dim act_dim th init os0 o0 inp = Inl e"
    by (simp add: dqn_def)
  with e show ?thesis by blast
qed

theorem invalid_config_rejected_at_start_witness:
  "q_lr (default_config\<lparr> q_lr := - 1 \<rparr>) < 0 \<and>
   dqn_start (default_config\<lparr> q_lr := - 1 \<rparr>) 1 [[1]] () [1] = Inl ValueError \<and>
   dqn (default_config\<lparr> q_lr := - 1 \<rparr>) 1 2
     \<lparr> mlp = (\<lambda>ps ob. [0, 1]), adam = (\<lambda>os h data. (\<lambda>p. h ! p, os)) \<rparr>
     [[1]] () [1]
     (\<lambda>t. \<lparr> action = 0, env_o2 = [2], env_r = 1, env_d = False, env_reset = [0],
            draws = (\<lambda>j. [0]) \<rparr>) = Inl ValueError"
proof -
  let ?cfg = "default_config\<lparr> q_lr := - 1 \<rparr>"
  let ?th = "\<lparr> mlp = (\<lambda>ps ob. [0, 1 :: real]),
               adam = (\<lambda>os h data. (\<lambda>p. h ! p, os :: unit)) :: unit \<Rightarrow> tensor list \<Rightarrow> batch \<Rightarrow> (nat \<Rightarrow> tensor) \<times> unit \<rparr>"
  let ?inp = "\<lambda>t :: nat. \<lparr> action = 0, env_o2 = [2], env_r = 1, env_d = False, env_reset = [0],
                   draws = (\<lambda>j. [0]) \<rparr>"
  have h: "q_lr ?cfg < 0 \<or> replay_size ?cfg < 0" by simp
  have v: "dqn_start ?cfg 1 [[1]] () [1] = (Inl ValueError :: py_error + unit trainer)"
    by (simp add: dqn_start_def manual_seed_def np_random_seed_def ReplayBuffer_def Adam_def
          default_config_def)
  from invalid_config_rejected_at_start [OF h, of 1 "[[1]]" "()" "[1]" 2 ?th ?inp]
  obtain e where "dqn_start ?cfg 1 [[1]] () [1] = (Inl e :: py_error + unit trainer)"
    and d: "dqn ?cfg 1 2 ?th [[1]] () [1] ?inp = Inl e"
    by blast
  with v have "e = ValueError" by simp
  with d have "dqn ?cfg 1 2 ?th [[1]] () [1] ?inp = Inl ValueError" by simp
  moreover have "q_lr ?cfg < 0" by simp
  ultimately show ?thesis using v by (intro conjI)
qed

text \<open>
  The two configurations that the claim names as examples are not among the rejected
  ones. With discount factor 2 the start-up succeeds, the first iteration runs, and its
  update logs the loss formed with the backup \<open>1 + 2 * 1\<close>; with capacity 2 and batch size
  128 the start-up succeeds and the first iteration runs as well.
\<close>

lemma gamma_and_batch_size_not_checked:
  "\<not> gamma (default_config\<lparr> gamma := 2, replay_size := 2, batch_size := 1,
                             update_interval := 1 \<rparr>) \<le> 1 \<and>
   \<not> isl (dqn_start (default_config\<lparr> gamma := 2, replay_size := 2, batch_size := 1,
                                      update_interval := 1 \<rparr>) 1 [[1]] () [1]) \<and>
   \<not> isl (dqn_loop (default_config\<lparr> gamma := 2, replay_size := 2, batch_size := 1,
                                     update_interval := 1 \<rparr>) 2
            \<lparr> mlp = (\<lambda>ps ob. [0, 1]), adam = (\<lambda>os h data. (\<lambda>p. h ! p, os)) \<rparr>
            (\<lambda>t. \<lparr> action = 0, env_o2 = [2], env_r = 1, env_d = False, env_reset = [0],
                   draws = (\<lambda>j. [0]) \<rparr>)
            (Suc 0)
            (projr (dqn_start (default_config\<lparr> gamma := 2, replay_size := 2, batch_size := 1,
                                      update_interval := 1 \<rparr>) 1 [[1]] () [1]))) \<and>
   LossQ (learner (projr (dqn_loop (default_config\<lparr> gamma := 2, replay_size := 2,
                                     batch_size := 1, update_interval := 1 \<rparr>) 2
            \<lparr> mlp = (\<lambda>ps ob. [0, 1]), adam = (\<lambda>os h data. (\<lambda>p. h ! p, os)) \<rparr>
            (\<lambda>t. \<lparr> action = 0, env_o2 = [2], env_r = 1, env_d = False, env_reset = [0],
                   draws = (\<lambda>j. [0]) \<rparr>)
            (Suc 0)
            (projr (dqn_start (default_config\<lparr> gamma := 2, replay_size := 2, batch_size := 1,
                                      update_interval := 1 \<rparr>) 1 [[1]] () [1]))))) =
     [Some ((0 - (1 + 2 * 1))\<^sup>2)] \<and>
   replay_size (default_config\<lparr> replay_size := 2 \<rparr>)
     < int (batch_size (default_config\<lparr> replay_size := 2 \<rparr>)) \<and>
   \<not> isl (dqn_start (default_config\<lparr> replay_size := 2 \<rparr>) 1 [[1]] () [1]) \<and>
   \<not> isl (dqn_loop (default_config\<lparr> replay_size := 2 \<rparr>) 2
            \<lparr> mlp = (\<lambda>ps ob. [0, 1]), adam = (\<lambda>os h data. (\<lambda>p. h ! p, os)) \<rparr>
            (\<lambda>t. \<lparr> action = 0, env_o2 = [2], env_r = 1, env_d = False, env_reset = [0],
                   draws = (\<lambda>j. [0]) \<rparr>)
            (Suc 0)
            (projr (dqn_start (default_config\<lparr> replay_size := 2 \<rparr>) 1 [[1]] () [1])))"
proof -
  let ?A = "default_config\<lparr> gamma := 2, replay_size := 2, batch_size := 1,
                             update_interval := 1 \<rparr>"
  let ?B = "default_config\<lparr> replay_size := 2 \<rparr>"
  let ?th = "\<lparr> mlp = (\<lambda>ps ob. [0, 1 :: real]),
               adam = (\<lambda>os h data. (\<lambda>p. h ! p, os :: unit)) :: unit \<Rightarrow> tensor list \<Rightarrow> batch \<Rightarrow> (nat \<Rightarrow> tensor) \<times> unit \<rparr>"
  let ?inp = "\<lambda>t :: nat. \<lparr> action = 0, env_o2 = [2], env_r = 1, env_d = False, env_reset = [0],
                   draws = (\<lambda>j. [0]) \<rparr>"
  let ?s0 = "\<lparr> buffer = ReplayBuffer_init 1 2, learner = dqn_networks [[1]] (), o_cur = [1],
              ep_ret = 0, ep_len = 0, exploration_rate = 1, EpRet = [] \<rparr>"
  have rep: "\<And>x::'a. replicate 2 x = [x, x]" by (simp add: numeral_2_eq_2)
  have startA: "dqn_start ?A 1 [[1]] () [1] = Inr ?s0"
    using dqn_start_accepts [of ?A "[[1]]" 1 "()" "[1]"] by (simp add: default_config_def)
  have startB: "dqn_start ?B 1 [[1]] () [1] = Inr ?s0"
    using dqn_start_accepts [of ?B "[[1]]" 1 "()" "[1]"] by (simp add: default_config_def)
  have net: "dqn_networks [[1]] () =
      \<lparr> heap = [[1], [1]], requires_grad = [True, False], q_net = [0], q_net_targ = [1],
        q_optimizer = [0], opt_state = (), LossQ = [], QVals = [] \<rparr>"
    by (simp add: dqn_networks_def deepcopy_def Let_def)
  have runA: "dqn_loop ?A 2 ?th ?inp (Suc 0) ?s0 =
     Inr \<lparr> buffer = \<lparr> obs_buf = [[1], [0]], obs2_buf = [[2], [0]], act_buf = [0, 0],
                       rew_buf = [1, 0], done_buf = [0, 0], ptr = 1, size_rb = 1,
                       max_size = 2 \<rparr>,
           learner = \<lparr> heap = [[1], [1]], requires_grad = [True, False], q_net = [0],
                        q_net_targ = [1], q_optimizer = [0], opt_state = (),
                        LossQ = [Some ((0 - (1 + 2 * 1))\<^sup>2)], QVals = [[0]] \<rparr>,
           o_cur = [2], ep_ret = 1, ep_len = 1,
           exploration_rate = 99995 / 100000, EpRet = [] \<rparr>"
    by (simp add: net dqn_step_def Let_def store_def ignore_done_def update_due_def
          ReplayBuffer_len_def ReplayBuffer_init_def default_config_def rep
          exploration_schedule_def sample_batch_def randint_def take_rows_def update_def
          gradient_step_def compute_loss_q_def bellman_backup_def gather_dim1_def mse_def
          params_of_def polyak_sync_def polyak_pair_def)
  have runB: "dqn_loop ?B 2 ?th ?inp (Suc 0) ?s0 =
     Inr \<lparr> buffer = \<lparr> obs_buf = [[1], [0]], obs2_buf = [[2], [0]], act_buf = [0, 0],
                       rew_buf = [1, 0], done_buf = [0, 0], ptr = 1, size_rb = 1,
                       max_size = 2 \<rparr>,
           learner = dqn_networks [[1]] (),
           o_cur = [2], ep_ret = 1, ep_len = 1,
           exploration_rate = 99995 / 100000, EpRet = [] \<rparr>"
    by (simp add: dqn_step_def Let_def store_def ignore_done_def update_due_def
          ReplayBuffer_len_def ReplayBuffer_init_def default_config_def rep
          exploration_schedule_def)
  show ?thesis
    by (simp only: startA startB sum.sel runA runB) (simp add: default_config_def)
qed

end
